theory Spec2Isabelle
  imports Main "HOL-Library.Multiset"
begin

section \<open>The Adventar gRPC service (grpc-server/service.go)\<close>

text \<open>
  The service is a set of handlers over a relational store. Each handler is embedded as a
  function from the store to an outcome and the store afterwards. The three tables are
  lists of typed rows in storage order; every SQL statement of the source is written as
  the list operation it denotes, next to the statement it comes from.
\<close>

subsection \<open>Errors and outcomes\<close>

text \<open>
  Go errors as values. \<open>ErrNoRows\<close> is \<^verbatim>\<open>sql.ErrNoRows\<close>; \<open>Errorf fmt args\<close> is
  \<^verbatim>\<open>fmt.Errorf(fmt, args...)\<close> with its arguments kept unformatted; \<open>ErrDriver\<close> is a
  failure reported by the database driver; \<open>ErrFetch\<close> one reported by the metadata
  fetcher; \<open>ErrConvert\<close> is the conversion error of \<^verbatim>\<open>Scan\<close> when a column value does not
  fit its destination.
\<close>

datatype error =
    ErrNoRows
  | Errorf string "int list"
  | ErrDriver nat
  | ErrFetch nat
  | ErrConvert

text \<open>
  A handler returns \<^verbatim>\<open>(value, nil)\<close>, returns \<^verbatim>\<open>(nil, err)\<close>, or does not return at
  all because a nil pointer is dereferenced (a run-time panic).
\<close>

datatype 'a outcome = Ok 'a | Err error | Panic

subsection \<open>Tables\<close>

text \<open>
  Modelled from the spec: the schema of the three tables is not among the sources. The
  columns are those the statements of service.go name and section 3 of the specification
  lists. Field prefixes follow the aliases of the queries (\<^verbatim>\<open>u.id\<close>, \<^verbatim>\<open>c.id\<close>,
  \<^verbatim>\<open>e.id\<close>). Integer columns are \<open>int\<close>, each value within the range of the Go variable
  it is scanned into; the two places where the source narrows a count to 32 bits are
  written out below (\<open>int32\<close>, \<open>scan_int32\<close>). Strings compare by equality.
\<close>

record user_row =
  u_id :: int
  u_name :: string
  u_auth_uid :: string
  u_auth_provider :: string
  u_icon_url :: string

record calendar_row =
  c_id :: int
  c_user_id :: int
  c_title :: string
  c_description :: string
  c_year :: int

record entry_row =
  e_id :: int
  e_user_id :: int
  e_calendar_id :: int
  e_day :: int
  e_comment :: string
  e_url :: string
  e_title :: string
  e_image_url :: string

text \<open>
  The store: the three tables, the auto-increment counters that give an inserted row its
  id (the inserts of the source name no id and read it back with \<^verbatim>\<open>LastInsertId\<close>), and
  \<open>faults\<close>, the answers the driver will give to the coming calls: \<open>Some e\<close> makes the
  next call fail with \<open>e\<close>, \<open>None\<close> lets it through, and an empty list means that no
  call fails any more.
\<close>

record db =
  users :: "user_row list"
  calendars :: "calendar_row list"
  entries :: "entry_row list"
  users_seq :: int
  entries_seq :: int
  faults :: "error option list"

subsection \<open>Go-side types\<close>

text \<open>
  Modelled from the spec: the declarations of \<^verbatim>\<open>AuthResult\<close>, \<^verbatim>\<open>SiteMeta\<close>, \<^verbatim>\<open>user\<close> and
  \<^verbatim>\<open>calendar\<close> (package main) and of the generated messages \<^verbatim>\<open>pb.User\<close>,
  \<^verbatim>\<open>pb.Calendar\<close> and \<^verbatim>\<open>pb.Entry\<close> are not among the sources. The fields are those
  service.go reads and writes; a pointer field is an \<open>option\<close>, \<open>None\<close> when nil, and a
  field the source leaves unset has its zero value.
\<close>

record AuthResult =
  AuthProvider :: string
  AuthUID :: string
  AuthName :: string
  AuthIconURL :: string

record SiteMeta =
  Title :: string
  ImageURL :: string

record user =
  user_ID :: int
  user_Name :: string
  user_IconURL :: string

record calendar =
  calendar_ID :: int
  calendar_UserID :: int
  calendar_Title :: string
  calendar_Description :: string
  calendar_Year :: int

record pb_User =
  User_Id :: int
  User_Name :: string
  User_IconUrl :: string

record pb_Calendar =
  Calendar_Id :: int
  Calendar_Title :: string
  Calendar_Description :: string
  Calendar_Year :: int
  Calendar_Owner :: "pb_User option"
  Calendar_EntryCount :: int

record pb_Entry =
  Entry_Id :: int
  Entry_Day :: int
  Entry_Title :: string
  Entry_Comment :: string
  Entry_Url :: string
  Entry_ImageUrl :: string
  Entry_Calendar :: "pb_Calendar option"
  Entry_Owner :: "pb_User option"

text \<open>
  \<^verbatim>\<open>Service\<close>: the two collaborators behind interfaces. \<^verbatim>\<open>VerifyIDToken\<close> returns a
  pointer and no error, so \<open>None\<close> is the nil pointer. \<^verbatim>\<open>Fetch\<close> returns a result or an
  error. \<open>sql_like\<close> is the store's \<^verbatim>\<open>LIKE\<close> under the collation of the schema (value,
  then pattern). The \<^verbatim>\<open>*sql.DB\<close> handle is the store, threaded through the handlers.
\<close>

record Service =
  VerifyIDToken :: "string \<Rightarrow> AuthResult option"
  Fetch :: "string \<Rightarrow> error + SiteMeta"
  sql_like :: "string \<Rightarrow> string \<Rightarrow> bool"

text \<open>
  The incoming context: \<open>None\<close> when it carries no metadata, else the metadata as pairs of
  a key and its values. A key that is absent has no values, as a Go map lookup gives.
\<close>

type_synonym MD = "(string \<times> string list) list"

definition FromIncomingContext :: "MD option \<Rightarrow> MD option" where
  "FromIncomingContext ctx = ctx"

definition md_get :: "MD \<Rightarrow> string \<Rightarrow> string list" where
  "md_get md k = (case map_of md k of None \<Rightarrow> [] | Some vs \<Rightarrow> vs)"

subsection \<open>The driver (database/sql)\<close>

text \<open>Every call to the driver first takes the next answer from \<open>faults\<close>.\<close>

definition driver_call :: "db \<Rightarrow> error option \<times> db" where
  "driver_call d =
     (case faults d of
        [] \<Rightarrow> (None, d)
      | f # fs \<Rightarrow> (f, d\<lparr>faults := fs\<rparr>))"

text \<open>
  \<^verbatim>\<open>db.Query\<close>: \<open>Inl e\<close> is the pair \<^verbatim>\<open>(nil, e)\<close>, \<open>Inr rows\<close> the pair \<^verbatim>\<open>(rows, nil)\<close>.
  The statement itself may be refused by the store.
\<close>

definition Query :: "(db \<Rightarrow> error + 'r list) \<Rightarrow> db \<Rightarrow> (error + 'r list) \<times> db" where
  "Query q d =
     (case driver_call d of
        (Some e, d') \<Rightarrow> (Inl e, d')
      | (None, d') \<Rightarrow> (q d', d'))"

text \<open>The Go variable \<^verbatim>\<open>rows\<close> after \<^verbatim>\<open>rows, err := db.Query(...)\<close>: nil when the call failed.\<close>

definition rows_of :: "error + 'r list \<Rightarrow> 'r list option" where
  "rows_of r = (case r of Inl e \<Rightarrow> None | Inr rs \<Rightarrow> Some rs)"

text \<open>
  A deferred \<^verbatim>\<open>rows.Close()\<close> runs when the function returns. On a nil \<^verbatim>\<open>*sql.Rows\<close> it
  locks a mutex inside the nil struct: a nil pointer dereference, so the function panics
  instead of returning what it was about to return.
\<close>

definition defer_rows_Close :: "'r list option \<Rightarrow> 'a outcome \<times> db \<Rightarrow> 'a outcome \<times> db" where
  "defer_rows_Close rows r =
     (case rows of
        None \<Rightarrow> (Panic, snd r)
      | Some rs \<Rightarrow> r)"

text \<open>
  The loop \<^verbatim>\<open>for rows.Next() { err := rows.Scan(...); if err != nil { return nil, err }; ... }\<close>:
  each \<^verbatim>\<open>Scan\<close> is a call to the driver and then the conversion of the row.
\<close>

fun scan_rows :: "('r \<Rightarrow> error + 'a) \<Rightarrow> 'r list \<Rightarrow> 'a list \<Rightarrow> db \<Rightarrow> (error + 'a list) \<times> db" where
  "scan_rows scan [] acc d = (Inr acc, d)"
| "scan_rows scan (r # rs) acc d =
     (case driver_call d of
        (Some e, d') \<Rightarrow> (Inl e, d')
      | (None, d') \<Rightarrow>
          (case scan r of
             Inl e \<Rightarrow> (Inl e, d')
           | Inr x \<Rightarrow> scan_rows scan rs (acc @ [x]) d'))"

text \<open>\<^verbatim>\<open>db.QueryRow(...).Scan(...)\<close>: the first row, or \<^verbatim>\<open>sql.ErrNoRows\<close>.\<close>

definition QueryRow_Scan :: "(db \<Rightarrow> 'r list) \<Rightarrow> db \<Rightarrow> (error + 'r) \<times> db" where
  "QueryRow_Scan q d =
     (case driver_call d of
        (Some e, d') \<Rightarrow> (Inl e, d')
      | (None, d') \<Rightarrow>
          (case q d' of
             [] \<Rightarrow> (Inl ErrNoRows, d')
           | r # rs \<Rightarrow> (Inr r, d')))"

text \<open>\<^verbatim>\<open>db.Prepare\<close> gives a statement or an error; the statement is the text at its \<^verbatim>\<open>Exec\<close>.\<close>

definition Prepare :: "db \<Rightarrow> error option \<times> db" where
  "Prepare d = driver_call d"

text \<open>\<^verbatim>\<open>stmt.Exec\<close>: runs the statement, which gives the id it inserted (0 when none).\<close>

definition Exec :: "(db \<Rightarrow> int \<times> db) \<Rightarrow> db \<Rightarrow> (error + int) \<times> db" where
  "Exec stmt d =
     (case driver_call d of
        (Some e, d') \<Rightarrow> (Inl e, d')
      | (None, d') \<Rightarrow> (Inr (fst (stmt d')), snd (stmt d')))"

text \<open>\<^verbatim>\<open>res.LastInsertId()\<close>.\<close>

definition LastInsertId :: "int \<Rightarrow> db \<Rightarrow> (error + int) \<times> db" where
  "LastInsertId res d =
     (case driver_call d of
        (Some e, d') \<Rightarrow> (Inl e, d')
      | (None, d') \<Rightarrow> (Inr res, d'))"

text \<open>The conversion \<^verbatim>\<open>int32(n)\<close> of a Go \<^verbatim>\<open>int\<close>: the low 32 bits, read as signed.\<close>

definition int32 :: "int \<Rightarrow> int" where
  "int32 n = (n + 2147483648) mod 4294967296 - 2147483648"

text \<open>\<^verbatim>\<open>Scan\<close> into an \<^verbatim>\<open>int32\<close> destination refuses a value out of its range.\<close>

definition scan_int32 :: "int \<Rightarrow> error + int" where
  "scan_int32 n = (if - 2147483648 \<le> n \<and> n < 2147483648 then Inr n else Inl ErrConvert)"

subsection \<open>getCurrentUser (service.go 458-478)\<close>

definition getCurrentUser :: "Service \<Rightarrow> MD option \<Rightarrow> db \<Rightarrow> user outcome \<times> db" where
  "getCurrentUser s ctx d =
     (case FromIncomingContext ctx of
        None \<Rightarrow> (Err (Errorf ''not found metadata'' []), d)
      | Some md \<Rightarrow>
          (let values = md_get md ''authorization'' in
           if length values = 0 then (Err (Errorf ''not found authorization in metadata'' []), d)
           else
             (case VerifyIDToken s (hd values) of
                None \<Rightarrow> (Panic, d)
              | Some authResult \<Rightarrow>
                  \<comment> \<open>select id, name, icon_url from users where auth_provider = ? and auth_uid = ?\<close>
                  (case QueryRow_Scan
                          (\<lambda>d. filter (\<lambda>u. u_auth_provider u = AuthProvider authResult
                                           \<and> u_auth_uid u = AuthUID authResult) (users d)) d of
                     (Inl e, d1) \<Rightarrow> (Err e, d1)
                   | (Inr u, d1) \<Rightarrow>
                       (Ok \<lparr>user_ID = u_id u, user_Name = u_name u, user_IconURL = u_icon_url u\<rparr>, d1)))))"

subsection \<open>The statements run through \<^verbatim>\<open>Exec\<close>\<close>

text \<open>update calendars set title = ?, description = ? where id = ? and user_id = ?\<close>

definition update_calendars :: "string \<Rightarrow> string \<Rightarrow> int \<Rightarrow> int \<Rightarrow> db \<Rightarrow> int \<times> db" where
  "update_calendars title description cid uid d =
     (0, d\<lparr>calendars :=
            map (\<lambda>c. if c_id c = cid \<and> c_user_id c = uid
                      then c\<lparr>c_title := title, c_description := description\<rparr> else c)
                (calendars d)\<rparr>)"

text \<open>delete from calendars where id = ? and user_id = ?\<close>

definition delete_calendars :: "int \<Rightarrow> int \<Rightarrow> db \<Rightarrow> int \<times> db" where
  "delete_calendars cid uid d =
     (0, d\<lparr>calendars := filter (\<lambda>c. \<not> (c_id c = cid \<and> c_user_id c = uid)) (calendars d)\<rparr>)"

text \<open>
  insert into entries(user_id, calendar_id, day, comment, url, title, image_url)
  values(?, ?, ?, '', '', '', '')
\<close>

definition insert_entries :: "int \<Rightarrow> int \<Rightarrow> int \<Rightarrow> db \<Rightarrow> int \<times> db" where
  "insert_entries uid cid day d =
     (entries_seq d,
      d\<lparr>entries := entries d @
            [\<lparr>e_id = entries_seq d, e_user_id = uid, e_calendar_id = cid, e_day = day,
              e_comment = '''', e_url = '''', e_title = '''', e_image_url = ''''\<rparr>],
        entries_seq := entries_seq d + 1\<rparr>)"

text \<open>update entries set comment = ?, url = ? where id = ? and user_id = ?\<close>

definition update_entries_comment_url :: "string \<Rightarrow> string \<Rightarrow> int \<Rightarrow> int \<Rightarrow> db \<Rightarrow> int \<times> db" where
  "update_entries_comment_url comment url eid uid d =
     (0, d\<lparr>entries :=
            map (\<lambda>e. if e_id e = eid \<and> e_user_id e = uid
                      then e\<lparr>e_comment := comment, e_url := url\<rparr> else e)
                (entries d)\<rparr>)"

text \<open>update entries set title = ?, image_url = ? where id = ? and user_id = ?\<close>

definition update_entries_title_image_url :: "string \<Rightarrow> string \<Rightarrow> int \<Rightarrow> int \<Rightarrow> db \<Rightarrow> int \<times> db" where
  "update_entries_title_image_url title image_url eid uid d =
     (0, d\<lparr>entries :=
            map (\<lambda>e. if e_id e = eid \<and> e_user_id e = uid
                      then e\<lparr>e_title := title, e_image_url := image_url\<rparr> else e)
                (entries d)\<rparr>)"

text \<open>insert into users (name, auth_uid, auth_provider, icon_url) values (?, ?, ?, ?)\<close>

definition insert_users :: "string \<Rightarrow> string \<Rightarrow> string \<Rightarrow> string \<Rightarrow> db \<Rightarrow> int \<times> db" where
  "insert_users name auth_uid auth_provider icon_url d =
     (users_seq d,
      d\<lparr>users := users d @
            [\<lparr>u_id = users_seq d, u_name = name, u_auth_uid = auth_uid,
              u_auth_provider = auth_provider, u_icon_url = icon_url\<rparr>],
        users_seq := users_seq d + 1\<rparr>)"

text \<open>update users set icon_url = ? where id = ?\<close>

definition update_users_icon_url :: "string \<Rightarrow> int \<Rightarrow> db \<Rightarrow> int \<times> db" where
  "update_users_icon_url icon_url uid d =
     (0, d\<lparr>users := map (\<lambda>u. if u_id u = uid then u\<lparr>u_icon_url := icon_url\<rparr> else u) (users d)\<rparr>)"

subsection \<open>Calendars (service.go 52-216, 480-557)\<close>

text \<open>\<^verbatim>\<open>limit ?\<close>: the store refuses a negative count.\<close>

definition sql_limit :: "int option \<Rightarrow> 'r list \<Rightarrow> error + 'r list" where
  "sql_limit limitQuery rows =
     (case limitQuery of
        None \<Rightarrow> Inr rows
      | Some n \<Rightarrow> if n < 0 then Inl (ErrDriver 0) else Inr (take (nat n) rows))"

text \<open>
  bindEntryCount: one aggregate query over the ids of the calendars,
  \<^verbatim>\<open>select calendar_id, count(*) from entries where calendar_id in (...) group by calendar_id\<close>,
  read into a Go map (an absent key reads as 0), then written into each calendar.
\<close>

definition entry_count_rows :: "int list \<Rightarrow> db \<Rightarrow> (int \<times> int) list" where
  "entry_count_rows ids d =
     map (\<lambda>cid. (cid, int (length (filter (\<lambda>e. e_calendar_id e = cid) (entries d)))))
         (remdups (filter (\<lambda>cid. cid \<in> set ids) (map e_calendar_id (entries d))))"

definition scan_count :: "int \<times> int \<Rightarrow> error + int \<times> int" where
  "scan_count r =
     (case scan_int32 (snd r) of
        Inl e \<Rightarrow> Inl e
      | Inr cnt \<Rightarrow> Inr (fst r, cnt))"

definition entryCounts_of :: "(int \<times> int) list \<Rightarrow> int \<Rightarrow> int" where
  "entryCounts_of scanned cid =
     (case fold (\<lambda>r m. m(fst r \<mapsto> snd r)) scanned Map.empty cid of
        None \<Rightarrow> 0
      | Some cnt \<Rightarrow> cnt)"

definition bindEntryCount :: "pb_Calendar list \<Rightarrow> db \<Rightarrow> pb_Calendar list outcome \<times> db" where
  "bindEntryCount cals d =
     (let ids = map Calendar_Id cals in
      case Query (\<lambda>d. Inr (entry_count_rows ids d)) d of
        (Inl e, d1) \<Rightarrow> (Err e, d1)
      | (Inr rows, d1) \<Rightarrow>
          (case scan_rows scan_count rows [] d1 of
             (Inl e, d2) \<Rightarrow> (Err e, d2)
           | (Inr scanned, d2) \<Rightarrow>
               (Ok (map (\<lambda>c. c\<lparr>Calendar_EntryCount := entryCounts_of scanned (Calendar_Id c)\<rparr>) cals),
                d2)))"

text \<open>
  ListCalendars. The conditions are collected as the source collects them and joined by
  \<^verbatim>\<open>and\<close>; the rows are those of \<^verbatim>\<open>calendars as c inner join users as u on u.id = c.user_id\<close>,
  \<^verbatim>\<open>order by c.id desc\<close>.
\<close>

definition calendar_join :: "db \<Rightarrow> (calendar_row \<times> user_row) list" where
  "calendar_join d = [(c, u). c \<leftarrow> calendars d, u \<leftarrow> users d, u_id u = c_user_id c]"

text \<open>The body of the loop: the columns of a row go into a \<^verbatim>\<open>pb.Calendar\<close> with its owner.\<close>

definition row_Calendar :: "calendar_row \<times> user_row \<Rightarrow> pb_Calendar" where
  "row_Calendar r =
     \<lparr>Calendar_Id = c_id (fst r), Calendar_Title = c_title (fst r),
      Calendar_Description = c_description (fst r), Calendar_Year = c_year (fst r),
      Calendar_Owner = Some \<lparr>User_Id = u_id (snd r), User_Name = u_name (snd r),
                             User_IconUrl = u_icon_url (snd r)\<rparr>,
      Calendar_EntryCount = 0\<rparr>"

definition scan_calendar :: "calendar_row \<times> user_row \<Rightarrow> error + pb_Calendar" where
  "scan_calendar r = Inr (row_Calendar r)"

definition ListCalendars ::
  "Service \<Rightarrow> int \<Rightarrow> int \<Rightarrow> string \<Rightarrow> int \<Rightarrow> db \<Rightarrow> pb_Calendar list outcome \<times> db" where
  "ListCalendars s year userId query pageSize d =
     (let conditionQueries =
            [\<lambda>r. c_year (fst r) = year]
            @ (if userId \<noteq> 0 then [\<lambda>r. c_user_id (fst r) = userId] else [])
            @ (if query \<noteq> ''''
               then [\<lambda>r. sql_like s (c_title (fst r)) (''%'' @ query @ ''%'')
                        \<or> sql_like s (c_description (fst r)) (''%'' @ query @ ''%'')]
               else []);
          limitQuery = (if pageSize \<noteq> 0 then Some pageSize else None);
          res = Query (\<lambda>d. sql_limit limitQuery
                              (sort_key (\<lambda>r. - c_id (fst r))
                                 (filter (\<lambda>r. list_all (\<lambda>q. q r) conditionQueries) (calendar_join d)))) d
      in case res of
           (Inl e, d1) \<Rightarrow> (Err e, d1)
         | (Inr rows, d1) \<Rightarrow>
             defer_rows_Close (Some rows)
               (case scan_rows scan_calendar rows [] d1 of
                  (Inl e, d2) \<Rightarrow> (Err e, d2)
                | (Inr cals, d2) \<Rightarrow>
                    if length cals \<noteq> 0 then
                      (case bindEntryCount cals d2 of
                         (Err e, d3) \<Rightarrow> (Err e, d3)
                       | (Panic, d3) \<Rightarrow> (Panic, d3)
                       | (Ok cals', d3) \<Rightarrow> (Ok cals', d3))
                    else (Ok cals, d2)))"

text \<open>
  findEntries:
  \<^verbatim>\<open>from entries as e inner join users as u on u.id = e.user_id where e.calendar_id = ? order by e.day\<close>.
\<close>

definition row_Entry_owner :: "entry_row \<times> user_row \<Rightarrow> pb_Entry" where
  "row_Entry_owner r =
     \<lparr>Entry_Id = e_id (fst r), Entry_Day = e_day (fst r), Entry_Title = e_title (fst r),
      Entry_Comment = e_comment (fst r), Entry_Url = e_url (fst r),
      Entry_ImageUrl = e_image_url (fst r), Entry_Calendar = None,
      Entry_Owner = Some \<lparr>User_Id = u_id (snd r), User_Name = u_name (snd r),
                           User_IconUrl = u_icon_url (snd r)\<rparr>\<rparr>"

definition scan_entry_user :: "entry_row \<times> user_row \<Rightarrow> error + pb_Entry" where
  "scan_entry_user r = Inr (row_Entry_owner r)"

definition findEntries :: "int \<Rightarrow> db \<Rightarrow> pb_Entry list outcome \<times> db" where
  "findEntries cid d =
     (case Query (\<lambda>d. Inr (sort_key (\<lambda>r. e_day (fst r))
                              [(e, u). e \<leftarrow> entries d, u \<leftarrow> users d,
                                       u_id u = e_user_id e, e_calendar_id e = cid])) d of
        (Inl e, d1) \<Rightarrow> (Err e, d1)
      | (Inr rows, d1) \<Rightarrow>
          (case scan_rows scan_entry_user rows [] d1 of
             (Inl e, d2) \<Rightarrow> (Err e, d2)
           | (Inr es, d2) \<Rightarrow> (Ok es, d2)))"

text \<open>\<^verbatim>\<open>select id, user_id, title, description, year from calendars where id = ?\<close> into a \<^verbatim>\<open>calendar\<close>.\<close>

definition select_calendar :: "int \<Rightarrow> db \<Rightarrow> calendar list" where
  "select_calendar cid d =
     map (\<lambda>c. \<lparr>calendar_ID = c_id c, calendar_UserID = c_user_id c, calendar_Title = c_title c,
               calendar_Description = c_description c, calendar_Year = c_year c\<rparr>)
         (filter (\<lambda>c. c_id c = cid) (calendars d))"

definition GetCalendar :: "int \<Rightarrow> db \<Rightarrow> (pb_Calendar \<times> pb_Entry list) outcome \<times> db" where
  "GetCalendar calendarId d =
     (case QueryRow_Scan (select_calendar calendarId) d of
        (Inl e, d1) \<Rightarrow> (Err e, d1)
      | (Inr cal, d1) \<Rightarrow>
          (case findEntries (calendar_ID cal) d1 of
             (Err e, d2) \<Rightarrow> (Err e, d2)
           | (Panic, d2) \<Rightarrow> (Panic, d2)
           | (Ok es, d2) \<Rightarrow>
               (Ok (\<lparr>Calendar_Id = calendar_ID cal, Calendar_Title = calendar_Title cal,
                     Calendar_Description = calendar_Description cal,
                     Calendar_Year = calendar_Year cal, Calendar_Owner = None,
                     Calendar_EntryCount = int32 (int (length es))\<rparr>, es), d2)))"

definition UpdateCalendar ::
  "Service \<Rightarrow> MD option \<Rightarrow> int \<Rightarrow> string \<Rightarrow> string \<Rightarrow> db \<Rightarrow> pb_Calendar outcome \<times> db" where
  "UpdateCalendar s ctx calendarId title description d =
     (case getCurrentUser s ctx d of
        (Err e, d0) \<Rightarrow> (Err e, d0)
      | (Panic, d0) \<Rightarrow> (Panic, d0)
      | (Ok currentUser, d0) \<Rightarrow>
          (case Prepare d0 of
             (Some e, d1) \<Rightarrow> (Err e, d1)
           | (None, d1) \<Rightarrow>
               (case Exec (update_calendars title description calendarId (user_ID currentUser)) d1 of
                  (Inl e, d2) \<Rightarrow> (Err e, d2)
                | (Inr res, d2) \<Rightarrow>
                    (case QueryRow_Scan (select_calendar calendarId) d2 of
                       (Inl e, d3) \<Rightarrow> (Err e, d3)
                     | (Inr cal, d3) \<Rightarrow>
                         (Ok \<lparr>Calendar_Id = calendar_ID cal, Calendar_Title = calendar_Title cal,
                              Calendar_Description = calendar_Description cal,
                              Calendar_Year = calendar_Year cal, Calendar_Owner = None,
                              Calendar_EntryCount = 0\<rparr>, d3)))))"

text \<open>
  DeleteCalendar. The error of getCurrentUser is overwritten by the next assignment
  to \<^verbatim>\<open>err\<close> and never read; \<^verbatim>\<open>currentUser\<close> is nil when there was one, and
  \<^verbatim>\<open>currentUser.ID\<close> is evaluated for the call of \<^verbatim>\<open>Exec\<close>.
\<close>

definition user_ptr :: "user outcome \<Rightarrow> user option" where
  "user_ptr r = (case r of Ok u \<Rightarrow> Some u | Err e \<Rightarrow> None | Panic \<Rightarrow> None)"

definition DeleteCalendar :: "Service \<Rightarrow> MD option \<Rightarrow> int \<Rightarrow> db \<Rightarrow> unit outcome \<times> db" where
  "DeleteCalendar s ctx calendarId d =
     (case getCurrentUser s ctx d of
        (Panic, d0) \<Rightarrow> (Panic, d0)
      | (r, d0) \<Rightarrow>
          (let currentUser = user_ptr r in
           case Prepare d0 of
             (Some e, d1) \<Rightarrow> (Err e, d1)
           | (None, d1) \<Rightarrow>
               (case currentUser of
                  None \<Rightarrow> (Panic, d1)
                | Some u \<Rightarrow>
                    (case Exec (delete_calendars calendarId (user_ID u)) d1 of
                       (Inl e, d2) \<Rightarrow> (Err e, d2)
                     | (Inr res, d2) \<Rightarrow> (Ok (), d2)))))"

subsection \<open>Entries (service.go 218-376)\<close>

text \<open>
  ListEntries. The rows are those of
  \<^verbatim>\<open>entries as e inner join users as u on u.id = e.user_id inner join calendars as c on c.id = e.calendar_id\<close>,
  \<^verbatim>\<open>order by e.day\<close>. \<^verbatim>\<open>defer rows.Close()\<close> stands before the test of \<^verbatim>\<open>err\<close>, so it
  is registered on whatever \<^verbatim>\<open>rows\<close> is.
\<close>

definition entry_join :: "db \<Rightarrow> (entry_row \<times> calendar_row \<times> user_row) list" where
  "entry_join d =
     [(e, c, u). e \<leftarrow> entries d, u \<leftarrow> users d, u_id u = e_user_id e,
                 c \<leftarrow> calendars d, c_id c = e_calendar_id e]"

definition row_Entry :: "entry_row \<times> calendar_row \<times> user_row \<Rightarrow> pb_Entry" where
  "row_Entry r =
     (case r of (e, c, u) \<Rightarrow>
        \<lparr>Entry_Id = e_id e, Entry_Day = e_day e, Entry_Title = e_title e,
         Entry_Comment = e_comment e, Entry_Url = e_url e, Entry_ImageUrl = e_image_url e,
         Entry_Calendar = Some \<lparr>Calendar_Id = c_id c, Calendar_Title = c_title c,
                                 Calendar_Description = c_description c, Calendar_Year = 0,
                                 Calendar_Owner = None, Calendar_EntryCount = 0\<rparr>,
         Entry_Owner = Some \<lparr>User_Id = u_id u, User_Name = u_name u,
                              User_IconUrl = u_icon_url u\<rparr>\<rparr>)"

definition scan_entry :: "entry_row \<times> calendar_row \<times> user_row \<Rightarrow> error + pb_Entry" where
  "scan_entry r = Inr (row_Entry r)"

definition ListEntries :: "int \<Rightarrow> int \<Rightarrow> db \<Rightarrow> pb_Entry list outcome \<times> db" where
  "ListEntries userId year d =
     (let conditionQueries =
            [\<lambda>r. e_user_id (fst r) = userId]
            @ (if year \<noteq> 0 then [\<lambda>r. c_year (fst (snd r)) = year] else []);
          res = Query (\<lambda>d. Inr (sort_key (\<lambda>r. e_day (fst r))
                                   (filter (\<lambda>r. list_all (\<lambda>q. q r) conditionQueries) (entry_join d)))) d
      in defer_rows_Close (rows_of (fst res))
           (case res of
              (Inl e, d1) \<Rightarrow> (Err e, d1)
            | (Inr rows, d1) \<Rightarrow>
                (case scan_rows scan_entry rows [] d1 of
                   (Inl e, d2) \<Rightarrow> (Err e, d2)
                 | (Inr es, d2) \<Rightarrow> (Ok es, d2))))"

text \<open>
  CreateEntry. After the insert the id is read back with
  \<^verbatim>\<open>select id from calendars where id = ?\<close> on the last inserted id.
\<close>

definition Entry_zero :: pb_Entry where
  "Entry_zero =
     \<lparr>Entry_Id = 0, Entry_Day = 0, Entry_Title = '''', Entry_Comment = '''', Entry_Url = '''',
      Entry_ImageUrl = '''', Entry_Calendar = None, Entry_Owner = None\<rparr>"

definition CreateEntry :: "Service \<Rightarrow> MD option \<Rightarrow> int \<Rightarrow> int \<Rightarrow> db \<Rightarrow> pb_Entry outcome \<times> db" where
  "CreateEntry s ctx calendarId day d =
     (case getCurrentUser s ctx d of
        (Err e, d0) \<Rightarrow> (Err e, d0)
      | (Panic, d0) \<Rightarrow> (Panic, d0)
      | (Ok currentUser, d0) \<Rightarrow>
          \<comment> \<open>select year from calendars where id = ?\<close>
          (case QueryRow_Scan (\<lambda>d. map c_year (filter (\<lambda>c. c_id c = calendarId) (calendars d))) d0 of
             (Inl e, d1) \<Rightarrow> (Err e, d1)
           | (Inr year, d1) \<Rightarrow>
               if day < 1 \<or> day > 25 then (Err (Errorf ''Invalid day: %d'' [day]), d1)
               else
                 (case Prepare d1 of
                    (Some e, d2) \<Rightarrow> (Err e, d2)
                  | (None, d2) \<Rightarrow>
                      (case Exec (insert_entries (user_ID currentUser) calendarId day) d2 of
                         (Inl e, d3) \<Rightarrow> (Err e, d3)
                       | (Inr res, d3) \<Rightarrow>
                           (case LastInsertId res d3 of
                              (Inl e, d4) \<Rightarrow> (Err e, d4)
                            | (Inr lastID, d4) \<Rightarrow>
                                \<comment> \<open>select id from calendars where id = ?\<close>
                                (case QueryRow_Scan
                                        (\<lambda>d. map c_id (filter (\<lambda>c. c_id c = lastID) (calendars d))) d4 of
                                   (Inl e, d5) \<Rightarrow> (Err e, d5)
                                 | (Inr entryID, d5) \<Rightarrow>
                                     (Ok (Entry_zero\<lparr>Entry_Id := entryID\<rparr>), d5)))))))"

text \<open>
  UpdateEntry. The last part (lines 366-375) reads the row back:
  \<^verbatim>\<open>select comment, url, title, image_url from entries where id = ?\<close>.
\<close>

definition UpdateEntry_read :: "int \<Rightarrow> db \<Rightarrow> pb_Entry outcome \<times> db" where
  "UpdateEntry_read entryId d =
     (case QueryRow_Scan (\<lambda>d. filter (\<lambda>e. e_id e = entryId) (entries d)) d of
        (Inl e, d1) \<Rightarrow> (Err e, d1)
      | (Inr r, d1) \<Rightarrow>
          (Ok (Entry_zero\<lparr>Entry_Id := entryId, Entry_Comment := e_comment r, Entry_Url := e_url r,
                          Entry_Title := e_title r, Entry_ImageUrl := e_image_url r\<rparr>), d1))"

definition UpdateEntry ::
  "Service \<Rightarrow> MD option \<Rightarrow> int \<Rightarrow> string \<Rightarrow> string \<Rightarrow> db \<Rightarrow> pb_Entry outcome \<times> db" where
  "UpdateEntry s ctx entryId comment url d =
     (case getCurrentUser s ctx d of
        (Err e, d0) \<Rightarrow> (Err e, d0)
      | (Panic, d0) \<Rightarrow> (Panic, d0)
      | (Ok currentUser, d0) \<Rightarrow>
          (case Prepare d0 of
             (Some e, d1) \<Rightarrow> (Err e, d1)
           | (None, d1) \<Rightarrow>
               (case Exec (update_entries_comment_url comment url entryId (user_ID currentUser)) d1 of
                  (Inl e, d2) \<Rightarrow> (Err e, d2)
                | (Inr res, d2) \<Rightarrow>
                    if url \<noteq> '''' then
                      (case Fetch s url of
                         Inl e \<Rightarrow> (Err e, d2)
                       | Inr m \<Rightarrow>
                           (case Prepare d2 of
                              (Some e, d3) \<Rightarrow> (Err e, d3)
                            | (None, d3) \<Rightarrow>
                                (case Exec (update_entries_title_image_url (Title m) (ImageURL m)
                                              entryId (user_ID currentUser)) d3 of
                                   (Inl e, d4) \<Rightarrow> (Err e, d4)
                                 | (Inr res', d4) \<Rightarrow> UpdateEntry_read entryId d4)))
                    else UpdateEntry_read entryId d2)))"

subsection \<open>SignIn (service.go 399-432)\<close>

definition SignIn :: "Service \<Rightarrow> string \<Rightarrow> db \<Rightarrow> unit outcome \<times> db" where
  "SignIn s jwt d =
     (case VerifyIDToken s jwt of
        None \<Rightarrow> (Panic, d)
      | Some authResult \<Rightarrow>
          \<comment> \<open>select id from users where auth_provider = ? and auth_uid = ?\<close>
          (case QueryRow_Scan
                  (\<lambda>d. map u_id (filter (\<lambda>u. u_auth_provider u = AuthProvider authResult
                                             \<and> u_auth_uid u = AuthUID authResult) (users d))) d of
             (Inl err, d1) \<Rightarrow>
               if err \<noteq> ErrNoRows then (Err err, d1)
               else
                 (case Prepare d1 of
                    (Some e, d2) \<Rightarrow> (Err e, d2)
                  | (None, d2) \<Rightarrow>
                      (case Exec (insert_users (AuthName authResult) (AuthUID authResult)
                                    (AuthProvider authResult) (AuthIconURL authResult)) d2 of
                         (Inl e, d3) \<Rightarrow> (Err e, d3)
                       | (Inr res, d3) \<Rightarrow> (Ok (), d3)))
           | (Inr userID, d1) \<Rightarrow>
               (case Prepare d1 of
                  (Some e, d2) \<Rightarrow> (Err e, d2)
                | (None, d2) \<Rightarrow>
                    (case Exec (update_users_icon_url (AuthIconURL authResult) userID) d2 of
                       (Inl e, d3) \<Rightarrow> (Err e, d3)
                     | (Inr res, d3) \<Rightarrow> (Ok (), d3)))))"

subsection \<open>A small store used to run the handlers\<close>

definition verifier0 :: "string \<Rightarrow> AuthResult option" where
  "verifier0 tok =
     (if tok = ''tok-alice''
      then Some \<lparr>AuthProvider = ''google'', AuthUID = ''a-1'', AuthName = ''alice'',
                 AuthIconURL = ''http://icons/alice-new''\<rparr>
      else if tok = ''tok-bob''
      then Some \<lparr>AuthProvider = ''github'', AuthUID = ''b-2'', AuthName = ''bob'',
                 AuthIconURL = ''http://icons/bob''\<rparr>
      else if tok = ''tok-carol''
      then Some \<lparr>AuthProvider = ''google'', AuthUID = ''c-3'', AuthName = ''carol'',
                 AuthIconURL = ''http://icons/carol''\<rparr>
      else None)"

definition fetcher0 :: "string \<Rightarrow> error + SiteMeta" where
  "fetcher0 url =
     (if url = ''http://ok'' then Inr \<lparr>Title = ''A page'', ImageURL = ''http://ok/img''\<rparr>
      else Inl (ErrFetch 1))"

definition svc0 :: Service where
  "svc0 = \<lparr>VerifyIDToken = verifier0, Fetch = fetcher0, sql_like = (\<lambda>v p. False)\<rparr>"

definition db0 :: db where
  "db0 =
     \<lparr>users =
        [\<lparr>u_id = 1, u_name = ''alice'', u_auth_uid = ''a-1'', u_auth_provider = ''google'',
          u_icon_url = ''http://icons/alice''\<rparr>,
         \<lparr>u_id = 2, u_name = ''bob'', u_auth_uid = ''b-2'', u_auth_provider = ''github'',
          u_icon_url = ''http://icons/bob''\<rparr>],
      calendars =
        [\<lparr>c_id = 1, c_user_id = 1, c_title = ''Go'', c_description = ''gophers'', c_year = 2023\<rparr>,
         \<lparr>c_id = 2, c_user_id = 2, c_title = ''Proofs'', c_description = ''provers'', c_year = 2023\<rparr>,
         \<lparr>c_id = 3, c_user_id = 1, c_title = ''Old'', c_description = ''last year'', c_year = 2022\<rparr>],
      entries =
        [\<lparr>e_id = 1, e_user_id = 2, e_calendar_id = 1, e_day = 3, e_comment = ''third'',
          e_url = '''', e_title = '''', e_image_url = ''''\<rparr>,
         \<lparr>e_id = 2, e_user_id = 1, e_calendar_id = 1, e_day = 1, e_comment = ''old'',
          e_url = ''http://old'', e_title = ''Old title'', e_image_url = ''http://old/img''\<rparr>,
         \<lparr>e_id = 3, e_user_id = 2, e_calendar_id = 3, e_day = 2, e_comment = ''second'',
          e_url = '''', e_title = '''', e_image_url = ''''\<rparr>],
      users_seq = 3,
      entries_seq = 4,
      faults = []\<rparr>"

definition ctx_alice :: "MD option" where
  "ctx_alice = Some [(''authorization'', [''tok-alice''])]"

definition ctx_bob :: "MD option" where
  "ctx_bob = Some [(''authorization'', [''tok-bob''])]"

definition ctx_carol :: "MD option" where
  "ctx_carol = Some [(''authorization'', [''tok-carol''])]"

definition ctx_anonymous :: "MD option" where
  "ctx_anonymous = Some [(''user-agent'', [''grpc-go''])]"

subsection \<open>What the claims speak of\<close>

text \<open>
  The row an id refers to. The statements of the source generate ids and never write one,
  so an id is a key of its table.
\<close>

definition user_by_id :: "db \<Rightarrow> int \<Rightarrow> user_row option" where
  "user_by_id d k = find (\<lambda>u. u_id u = k) (users d)"

definition calendar_by_id :: "db \<Rightarrow> int \<Rightarrow> calendar_row option" where
  "calendar_by_id d k = find (\<lambda>c. c_id c = k) (calendars d)"

definition owner_snapshot :: "user_row \<Rightarrow> pb_User" where
  "owner_snapshot u = \<lparr>User_Id = u_id u, User_Name = u_name u, User_IconUrl = u_icon_url u\<rparr>"

text \<open>A calendar as ListCalendars is said to return it: its columns, its owner, its entry count.\<close>

definition calendar_with_count :: "db \<Rightarrow> calendar_row \<Rightarrow> pb_Calendar" where
  "calendar_with_count d c =
     \<lparr>Calendar_Id = c_id c, Calendar_Title = c_title c, Calendar_Description = c_description c,
      Calendar_Year = c_year c,
      Calendar_Owner = map_option owner_snapshot (user_by_id d (c_user_id c)),
      Calendar_EntryCount = int (length (filter (\<lambda>e. e_calendar_id e = c_id c) (entries d)))\<rparr>"

text \<open>An entry as GetCalendar is said to return it: its columns and its owner.\<close>

definition entry_with_owner :: "db \<Rightarrow> entry_row \<Rightarrow> pb_Entry" where
  "entry_with_owner d e =
     \<lparr>Entry_Id = e_id e, Entry_Day = e_day e, Entry_Title = e_title e,
      Entry_Comment = e_comment e, Entry_Url = e_url e, Entry_ImageUrl = e_image_url e,
      Entry_Calendar = None,
      Entry_Owner = map_option owner_snapshot (user_by_id d (e_user_id e))\<rparr>"

text \<open>
  An entry as ListEntries is said to return it: its columns, the id, title and description
  of its calendar, and its owner.
\<close>

definition calendar_snapshot :: "calendar_row \<Rightarrow> pb_Calendar" where
  "calendar_snapshot c =
     \<lparr>Calendar_Id = c_id c, Calendar_Title = c_title c, Calendar_Description = c_description c,
      Calendar_Year = 0, Calendar_Owner = None, Calendar_EntryCount = 0\<rparr>"

definition entry_snapshot :: "db \<Rightarrow> entry_row \<Rightarrow> pb_Entry" where
  "entry_snapshot d e =
     \<lparr>Entry_Id = e_id e, Entry_Day = e_day e, Entry_Title = e_title e,
      Entry_Comment = e_comment e, Entry_Url = e_url e, Entry_ImageUrl = e_image_url e,
      Entry_Calendar = map_option calendar_snapshot (calendar_by_id d (e_calendar_id e)),
      Entry_Owner = map_option owner_snapshot (user_by_id d (e_user_id e))\<rparr>"

text \<open>The rows of \<^verbatim>\<open>users\<close> for one identity.\<close>

definition users_of_identity :: "string \<Rightarrow> string \<Rightarrow> db \<Rightarrow> user_row list" where
  "users_of_identity provider uid d =
     filter (\<lambda>u. u_auth_provider u = provider \<and> u_auth_uid u = uid) (users d)"

text \<open>What SignIn is said to leave alone in a user row.\<close>

definition user_identity :: "user_row \<Rightarrow> int \<times> string \<times> string \<times> string" where
  "user_identity u = (u_id u, u_name u, u_auth_uid u, u_auth_provider u)"

section \<open>Properties\<close>

subsection \<open>The driver when no call fails\<close>

lemma driver_call_ok: "faults d = [] \<Longrightarrow> driver_call d = (None, d)"
  by (simp add: driver_call_def)

lemma QueryRow_Scan_ok:
  "faults d = [] \<Longrightarrow>
   QueryRow_Scan q d = (case q d of [] \<Rightarrow> (Inl ErrNoRows, d) | r # rs \<Rightarrow> (Inr r, d))"
  by (simp add: QueryRow_Scan_def driver_call_ok)

lemma Prepare_ok: "faults d = [] \<Longrightarrow> Prepare d = (None, d)"
  by (simp add: Prepare_def driver_call_ok)

lemma Exec_ok: "faults d = [] \<Longrightarrow> Exec stmt d = (Inr (fst (stmt d)), snd (stmt d))"
  by (simp add: Exec_def driver_call_ok)

lemma getCurrentUser_snd_ok: "faults d = [] \<Longrightarrow> snd (getCurrentUser s ctx d) = d"
  by (simp add: getCurrentUser_def QueryRow_Scan_ok Let_def split: option.splits list.splits)

lemma getCurrentUser_ok:
  "faults d = [] \<Longrightarrow> fst (getCurrentUser s ctx d) = Ok u \<Longrightarrow> getCurrentUser s ctx d = (Ok u, d)"
  using getCurrentUser_snd_ok [of d s ctx] by (cases "getCurrentUser s ctx d") simp

subsection \<open>Reads leave the tables alone, whatever the driver answers\<close>

lemma QueryRow_Scan_entries: "entries (snd (QueryRow_Scan q d)) = entries d"
  by (simp add: QueryRow_Scan_def driver_call_def split: list.splits option.splits)

lemma snd_case_sum_pair:
  "snd (case r of (x, d1) \<Rightarrow> (case x of Inl e \<Rightarrow> (f e, d1) | Inr u \<Rightarrow> (g u, d1))) = snd r"
  by (auto split: prod.splits sum.splits)

lemma getCurrentUser_entries: "entries (snd (getCurrentUser s ctx d)) = entries d"
  by (simp add: getCurrentUser_def Let_def snd_case_sum_pair QueryRow_Scan_entries split: option.splits)

subsection \<open>UpdateEntry when the metadata fetch fails\<close>

text \<open>
  C1, as stated: when the caller owns entry E, the url is not empty and the fetcher fails,
  UpdateEntry returns an error and E keeps its comment, url, title and image_url. The
  first \<^verbatim>\<open>update\<close> has run before the fetch and nothing undoes it: in the sample store
  alice's entry 2 has the comment \<open>old\<close> before the call and \<open>hi\<close> after it, while the
  call returns the fetcher's error.
\<close>

theorem UpdateEntry_fetch_error_counterexample:
  "fst (UpdateEntry svc0 ctx_alice 2 ''hi'' ''http://bad'' db0) = Err (ErrFetch 1)
   \<and> map e_comment (filter (\<lambda>e. e_id e = 2) (entries db0)) = [''old'']
   \<and> map e_comment (filter (\<lambda>e. e_id e = 2)
        (entries (snd (UpdateEntry svc0 ctx_alice 2 ''hi'' ''http://bad'' db0)))) = [''hi'']"
  by code_simp

text \<open>
  C1, amended: when no driver call fails, the caller is authenticated as \<open>u\<close> and owns
  entry E, the url is not empty and the fetcher fails with \<open>err\<close>, UpdateEntry returns
  \<open>err\<close>; the title and image_url of every entry are what they were, no entry is added
  or removed, and E now carries the comment and the url of the request.
\<close>

theorem UpdateEntry_fetch_error:
  assumes "faults d = []"
    and "fst (getCurrentUser s ctx d) = Ok u"
    and "E \<in> set (entries d)" and "e_id E = entryId" and "e_user_id E = user_ID u"
    and "url \<noteq> ''''" and "Fetch s url = Inl err"
  shows "fst (UpdateEntry s ctx entryId comment url d) = Err err
       \<and> E\<lparr>e_comment := comment, e_url := url\<rparr>
           \<in> set (entries (snd (UpdateEntry s ctx entryId comment url d)))
       \<and> map e_id (entries (snd (UpdateEntry s ctx entryId comment url d))) = map e_id (entries d)
       \<and> map e_title (entries (snd (UpdateEntry s ctx entryId comment url d)))
           = map e_title (entries d)
       \<and> map e_image_url (entries (snd (UpdateEntry s ctx entryId comment url d)))
           = map e_image_url (entries d)"
proof -
  have g: "getCurrentUser s ctx d = (Ok u, d)"
    using assms(1,2) by (rule getCurrentUser_ok)
  have r: "UpdateEntry s ctx entryId comment url d
         = (Err err, snd (update_entries_comment_url comment url entryId (user_ID u) d))"
    using assms(1,6,7) g by (simp add: UpdateEntry_def Prepare_ok Exec_ok)
  have m: "E\<lparr>e_comment := comment, e_url := url\<rparr>
             \<in> set (entries (snd (update_entries_comment_url comment url entryId (user_ID u) d)))"
    using assms(3,4,5) by (force simp: update_entries_comment_url_def)
  show ?thesis
    unfolding r using m
    by (simp add: update_entries_comment_url_def comp_def if_distrib cong: if_cong)
qed

theorem UpdateEntry_fetch_error_witness:
  "faults db0 = []
   \<and> fst (getCurrentUser svc0 ctx_alice db0)
       = Ok \<lparr>user_ID = 1, user_Name = ''alice'', user_IconURL = ''http://icons/alice''\<rparr>
   \<and> hd (tl (entries db0)) \<in> set (entries db0)
   \<and> e_id (hd (tl (entries db0))) = 2
   \<and> e_user_id (hd (tl (entries db0))) = 1
   \<and> ''http://bad'' \<noteq> ''''
   \<and> Fetch svc0 ''http://bad'' = Inl (ErrFetch 1)
   \<and> fst (UpdateEntry svc0 ctx_alice 2 ''hi'' ''http://bad'' db0) = Err (ErrFetch 1)
   \<and> (hd (tl (entries db0)))\<lparr>e_comment := ''hi'', e_url := ''http://bad''\<rparr>
       \<in> set (entries (snd (UpdateEntry svc0 ctx_alice 2 ''hi'' ''http://bad'' db0)))
   \<and> map e_title (entries (snd (UpdateEntry svc0 ctx_alice 2 ''hi'' ''http://bad'' db0)))
       = map e_title (entries db0)
   \<and> map e_image_url (entries (snd (UpdateEntry svc0 ctx_alice 2 ''hi'' ''http://bad'' db0)))
       = map e_image_url (entries db0)"
proof -
  let ?u = "\<lparr>user_ID = 1, user_Name = ''alice'', user_IconURL = ''http://icons/alice''\<rparr>"
  let ?E = "hd (tl (entries db0))"
  have h1: "faults db0 = []" by code_simp
  have h2: "fst (getCurrentUser svc0 ctx_alice db0) = Ok ?u" by code_simp
  have h3: "?E \<in> set (entries db0)" by (simp add: db0_def)
  have h4: "e_id ?E = 2" by (simp add: db0_def)
  have h5: "e_user_id ?E = user_ID ?u" by (simp add: db0_def)
  have h6: "''http://bad'' \<noteq> ''''" by simp
  have h7: "Fetch svc0 ''http://bad'' = Inl (ErrFetch 1)" by (simp add: svc0_def fetcher0_def)
  show ?thesis
    using UpdateEntry_fetch_error [OF h1 h2 h3 h4 h5 h6 h7, of "''hi''"] h1 h2 h3 h4 h5 h7
    by simp
qed

subsection \<open>DeleteCalendar without an authenticated caller\<close>

text \<open>
  C2: DeleteCalendar requires an authenticated caller; without an authorization value, or
  without a local user row for the verified identity, it returns an Unauthenticated-style
  error and deletes no calendar. The code does not do this. In the sample store
  getCurrentUser returns its error in both cases, DeleteCalendar never reads it and stops
  with a nil pointer dereference on \<^verbatim>\<open>currentUser.ID\<close>: no error is returned (and no row
  is deleted).
\<close>

theorem DeleteCalendar_ignores_auth_error:
  "fst (getCurrentUser svc0 ctx_anonymous db0)
     = Err (Errorf ''not found authorization in metadata'' [])
   \<and> DeleteCalendar svc0 ctx_anonymous 1 db0 = (Panic, db0)
   \<and> fst (getCurrentUser svc0 ctx_carol db0) = Err ErrNoRows
   \<and> DeleteCalendar svc0 ctx_carol 1 db0 = (Panic, db0)"
  by code_simp

subsection \<open>CreateEntry\<close>

text \<open>
  C3: a CreateEntry call that inserts a row succeeds and returns the id of that row. The
  code reads the id back from \<^verbatim>\<open>calendars\<close>, not from \<^verbatim>\<open>entries\<close>. In the sample store
  alice's call for calendar 1, day 5 inserts entry 4; no calendar has the id 4, so the
  call returns \<^verbatim>\<open>sql.ErrNoRows\<close> although the row is there.
\<close>

theorem CreateEntry_reads_back_wrong_table:
  "fst (CreateEntry svc0 ctx_alice 1 5 db0) = Err ErrNoRows
   \<and> map e_id (entries db0) = [1, 2, 3]
   \<and> map e_id (entries (snd (CreateEntry svc0 ctx_alice 1 5 db0))) = [1, 2, 3, 4]"
  by code_simp

text \<open>
  C4: with a day below 1 or above 25 CreateEntry inserts no entry and does not succeed,
  whatever the caller, the calendar and the driver do; and for an authenticated caller
  and an existing calendar, with no driver failure, it returns the error
  \<^verbatim>\<open>Invalid day: <day>\<close> and leaves the whole store as it was.
\<close>

theorem CreateEntry_invalid_day:
  assumes "day < 1 \<or> day > 25"
  shows "entries (snd (CreateEntry s ctx calendarId day d)) = entries d
       \<and> (\<forall>x. fst (CreateEntry s ctx calendarId day d) \<noteq> Ok x)
       \<and> (faults d = [] \<and> fst (getCurrentUser s ctx d) = Ok u
            \<and> calendarId \<in> set (map c_id (calendars d))
          \<longrightarrow> CreateEntry s ctx calendarId day d = (Err (Errorf ''Invalid day: %d'' [day]), d))"
proof (intro conjI impI allI)
  show "entries (snd (CreateEntry s ctx calendarId day d)) = entries d"
  proof (cases "getCurrentUser s ctx d")
    case (Pair r d0)
    then have "entries d0 = entries d"
      using getCurrentUser_entries [of s ctx d] by simp
    with Pair assms show ?thesis
      using QueryRow_Scan_entries
              [of "\<lambda>d. map c_year (filter (\<lambda>c. c_id c = calendarId) (calendars d))" d0]
      by (cases r) (auto simp: CreateEntry_def split: prod.splits sum.splits)
  qed
next
  fix x
  show "fst (CreateEntry s ctx calendarId day d) \<noteq> Ok x"
    using assms by (auto simp: CreateEntry_def split: prod.splits sum.splits outcome.splits)
next
  assume a: "faults d = [] \<and> fst (getCurrentUser s ctx d) = Ok u
            \<and> calendarId \<in> set (map c_id (calendars d))"
  then have g: "getCurrentUser s ctx d = (Ok u, d)"
    by (simp add: getCurrentUser_ok)
  from a have "filter (\<lambda>c. c_id c = calendarId) (calendars d) \<noteq> []"
    by (auto simp: filter_empty_conv)
  then obtain c cs where "filter (\<lambda>c. c_id c = calendarId) (calendars d) = c # cs"
    by (cases "filter (\<lambda>c. c_id c = calendarId) (calendars d)") auto
  with a g assms
  show "CreateEntry s ctx calendarId day d = (Err (Errorf ''Invalid day: %d'' [day]), d)"
    by (simp add: CreateEntry_def QueryRow_Scan_ok)
qed

theorem CreateEntry_invalid_day_witness:
  "((26::int) < 1 \<or> (26::int) > 25)
   \<and> faults db0 = []
   \<and> fst (getCurrentUser svc0 ctx_alice db0)
       = Ok \<lparr>user_ID = 1, user_Name = ''alice'', user_IconURL = ''http://icons/alice''\<rparr>
   \<and> (1::int) \<in> set (map c_id (calendars db0))
   \<and> CreateEntry svc0 ctx_alice 1 26 db0 = (Err (Errorf ''Invalid day: %d'' [26]), db0)
   \<and> entries (snd (CreateEntry svc0 ctx_alice 1 26 db0)) = entries db0"
proof -
  let ?u = "\<lparr>user_ID = 1, user_Name = ''alice'', user_IconURL = ''http://icons/alice''\<rparr>"
  have h: "(26::int) < 1 \<or> (26::int) > 25" by simp
  have a: "faults db0 = [] \<and> fst (getCurrentUser svc0 ctx_alice db0) = Ok ?u
           \<and> (1::int) \<in> set (map c_id (calendars db0))"
    by code_simp
  show ?thesis
    using CreateEntry_invalid_day [OF h, of svc0 ctx_alice 1 db0 ?u] a h by simp
qed

subsection \<open>ListEntries when the query fails\<close>

text \<open>
  C10: ListEntries is safe when its query fails: it returns a response or that error and
  never closes a nil rows handle. The code registers \<^verbatim>\<open>rows.Close()\<close> before it tests the
  error, so when the query fails the deferred call runs on nil: in the sample store, with
  a driver that fails the next call, ListEntries panics instead of returning the error.
\<close>

theorem ListEntries_query_error_panics:
  "fst (Query (\<lambda>d. Inr (entry_join d)) (db0\<lparr>faults := [Some (ErrDriver 7)]\<rparr>))
     = Inl (ErrDriver 7)
   \<and> fst (ListEntries 2 2023 (db0\<lparr>faults := [Some (ErrDriver 7)]\<rparr>)) = Panic"
  by code_simp

subsection \<open>Keys and joins\<close>

lemma filter_key_unique:
  "distinct (map f xs) \<Longrightarrow> x \<in> set xs \<Longrightarrow> filter (\<lambda>y. f y = f x) xs = [x]"
proof (induction xs)
  case Nil
  then show ?case by simp
next
  case (Cons a xs)
  show ?case
  proof (cases "a = x")
    case True
    with Cons.prems have "filter (\<lambda>y. f y = f x) xs = []"
      by (auto simp: filter_empty_conv image_iff)
    with True show ?thesis by simp
  next
    case False
    with Cons.prems have "x \<in> set xs" "f a \<noteq> f x" by auto
    with Cons show ?thesis by simp
  qed
qed

lemma find_as_filter: "find P xs = (case filter P xs of [] \<Rightarrow> None | x # ys \<Rightarrow> Some x)"
  by (induction xs) auto

lemma key_lookup:
  assumes "distinct (map f xs)" and "k \<in> set (map f xs)"
  shows "\<exists>x. x \<in> set xs \<and> f x = k \<and> filter (\<lambda>y. f y = k) xs = [x]
            \<and> find (\<lambda>y. f y = k) xs = Some x"
proof -
  from assms(2) obtain x where x: "x \<in> set xs" "f x = k" by auto
  with filter_key_unique [OF assms(1) x(1)] have "filter (\<lambda>y. f y = k) xs = [x]" by simp
  with x show ?thesis by (auto simp: find_as_filter)
qed

lemma Query_ok: "faults d = [] \<Longrightarrow> Query q d = (q d, d)"
  by (simp add: Query_def driver_call_ok)

lemma scan_rows_ok:
  "faults d = [] \<Longrightarrow> scan_rows (\<lambda>r. Inr (f r)) rs acc d = (Inr (acc @ map f rs), d)"
  by (induction rs arbitrary: acc) (simp_all add: driver_call_ok)

lemma join_one:
  "concat (map (\<lambda>u. if g u = k then (if b then [h u] else []) else []) us)
     = (if b then map h (filter (\<lambda>u. g u = k) us) else [])"
  by (induction us) auto

subsection \<open>UpdateCalendar by somebody else\<close>

text \<open>
  C7: when no driver call fails, the caller is authenticated as \<open>U\<close>, and calendar C (the
  one row with its id) belongs to another user, UpdateCalendar on C's id succeeds, returns
  the id, title, description and year C has, and leaves the whole store as it was: no row
  is updated and no authorization error is returned.
\<close>

theorem UpdateCalendar_non_owner:
  assumes "faults d = []"
    and "fst (getCurrentUser s ctx d) = Ok U"
    and "distinct (map c_id (calendars d))"
    and "C \<in> set (calendars d)" and "c_id C = calendarId" and "c_user_id C \<noteq> user_ID U"
  shows "UpdateCalendar s ctx calendarId title description d
       = (Ok \<lparr>Calendar_Id = c_id C, Calendar_Title = c_title C,
               Calendar_Description = c_description C, Calendar_Year = c_year C,
               Calendar_Owner = None, Calendar_EntryCount = 0\<rparr>, d)"
proof -
  have g: "getCurrentUser s ctx d = (Ok U, d)"
    using assms(1,2) by (rule getCurrentUser_ok)
  have f: "filter (\<lambda>c. c_id c = calendarId) (calendars d) = [C]"
    using filter_key_unique [OF assms(3,4)] assms(5) by simp
  have "\<And>c. c \<in> set (calendars d) \<Longrightarrow> c_id c = calendarId \<Longrightarrow> c = C"
  proof -
    fix c assume "c \<in> set (calendars d)" "c_id c = calendarId"
    then have "c \<in> set (filter (\<lambda>c. c_id c = calendarId) (calendars d))" by simp
    then show "c = C" unfolding f by simp
  qed
  then have "map (\<lambda>c. if c_id c = calendarId \<and> c_user_id c = user_ID U
                      then c\<lparr>c_title := title, c_description := description\<rparr> else c)
                 (calendars d) = calendars d"
    using assms(6) by (intro map_idI) auto
  then have u: "update_calendars title description calendarId (user_ID U) d = (0, d)"
    by (simp add: update_calendars_def)
  show ?thesis
    using assms(1) g u f
    by (simp add: UpdateCalendar_def Prepare_ok Exec_ok QueryRow_Scan_ok select_calendar_def)
qed

theorem UpdateCalendar_non_owner_witness:
  "faults db0 = []
   \<and> fst (getCurrentUser svc0 ctx_bob db0)
       = Ok \<lparr>user_ID = 2, user_Name = ''bob'', user_IconURL = ''http://icons/bob''\<rparr>
   \<and> distinct (map c_id (calendars db0))
   \<and> hd (calendars db0) \<in> set (calendars db0)
   \<and> c_id (hd (calendars db0)) = 1
   \<and> c_user_id (hd (calendars db0)) \<noteq> 2
   \<and> UpdateCalendar svc0 ctx_bob 1 ''Mine now'' ''taken over'' db0
       = (Ok \<lparr>Calendar_Id = 1, Calendar_Title = ''Go'', Calendar_Description = ''gophers'',
               Calendar_Year = 2023, Calendar_Owner = None, Calendar_EntryCount = 0\<rparr>, db0)"
proof -
  let ?U = "\<lparr>user_ID = 2, user_Name = ''bob'', user_IconURL = ''http://icons/bob''\<rparr>"
  let ?C = "hd (calendars db0)"
  have h1: "faults db0 = []" by code_simp
  have h2: "fst (getCurrentUser svc0 ctx_bob db0) = Ok ?U" by code_simp
  have h3: "distinct (map c_id (calendars db0))" by code_simp
  have h4: "?C \<in> set (calendars db0)" by (simp add: db0_def)
  have h5: "c_id ?C = 1" by (simp add: db0_def)
  have h6: "c_user_id ?C \<noteq> user_ID ?U" by (simp add: db0_def)
  have c: "c_title ?C = ''Go'' \<and> c_description ?C = ''gophers'' \<and> c_year ?C = 2023"
    by (simp add: db0_def)
  show ?thesis
    using UpdateCalendar_non_owner [OF h1 h2 h3 h4 h5 h6, of "''Mine now''" "''taken over''"]
      h1 h2 h3 h4 h5 h6 c
    by simp
qed

subsection \<open>GetCalendar\<close>

lemma entries_users_join:
  assumes "distinct (map u_id (users d))"
    and "list_all (\<lambda>e. e_user_id e \<in> set (map u_id (users d))) es"
  shows "map row_Entry_owner
            [(e, u). e \<leftarrow> es, u \<leftarrow> users d, u_id u = e_user_id e, e_calendar_id e = cid]
       = map (entry_with_owner d) (filter (\<lambda>e. e_calendar_id e = cid) es)"
  using assms(2)
proof (induction es)
  case Nil
  then show ?case by simp
next
  case (Cons e es)
  from Cons.prems have "e_user_id e \<in> set (map u_id (users d))" by simp
  from key_lookup [OF assms(1) this] obtain u where
    u: "filter (\<lambda>y. u_id y = e_user_id e) (users d) = [u]"
       "find (\<lambda>y. u_id y = e_user_id e) (users d) = Some u" by blast
  from Cons have IH: "map row_Entry_owner
            [(e, u). e \<leftarrow> es, u \<leftarrow> users d, u_id u = e_user_id e, e_calendar_id e = cid]
       = map (entry_with_owner d) (filter (\<lambda>e. e_calendar_id e = cid) es)" by simp
  have h: "row_Entry_owner (e, u) = entry_with_owner d e"
    using u(2)
    by (simp add: entry_with_owner_def user_by_id_def owner_snapshot_def row_Entry_owner_def)
  show ?case
    using IH u(1) h by (simp add: join_one)
qed

lemma findEntries_ok:
  assumes "faults d = []"
  shows "findEntries cid d
       = (Ok (map row_Entry_owner
                (sort_key (\<lambda>r. e_day (fst r))
                   [(e, u). e \<leftarrow> entries d, u \<leftarrow> users d, u_id u = e_user_id e,
                            e_calendar_id e = cid])), d)"
proof -
  have s: "scan_entry_user = (\<lambda>r. Inr (row_Entry_owner r))"
    by (rule ext) (simp add: scan_entry_user_def)
  show ?thesis
    using assms unfolding findEntries_def s by (simp add: Query_ok scan_rows_ok)
qed

lemma Entry_Day_row_Entry_owner: "Entry_Day (row_Entry_owner r) = e_day (fst r)"
  by (simp add: row_Entry_owner_def)

lemma int32_small: "0 \<le> n \<Longrightarrow> n < 2147483648 \<Longrightarrow> int32 n = n"
  by (simp add: int32_def)

text \<open>
  C9: when no driver call fails, user and calendar ids are unique and every entry's owner
  has a user row: GetCalendar on an id no calendar has returns \<^verbatim>\<open>sql.ErrNoRows\<close>; on the
  id of calendar C it returns C's id, title, description and year together with exactly
  the entries whose calendar_id is that id, each with its owner, in ascending order of day.
  The entry count it returns is \<^verbatim>\<open>int32(len(entries))\<close>, which is the number of entries
  returned as long as that number is below 2^31.
\<close>

theorem GetCalendar_spec:
  assumes "faults d = []"
    and "distinct (map u_id (users d))" and "distinct (map c_id (calendars d))"
    and "list_all (\<lambda>e. e_user_id e \<in> set (map u_id (users d))) (entries d)"
  shows "(calendarId \<notin> set (map c_id (calendars d))
            \<longrightarrow> GetCalendar calendarId d = (Err ErrNoRows, d))
       \<and> (\<forall>C \<in> set (calendars d). c_id C = calendarId \<longrightarrow>
            (\<exists>cal es. GetCalendar calendarId d = (Ok (cal, es), d)
               \<and> Calendar_Id cal = c_id C \<and> Calendar_Title cal = c_title C
               \<and> Calendar_Description cal = c_description C \<and> Calendar_Year cal = c_year C
               \<and> mset es = mset (map (entry_with_owner d)
                                      (filter (\<lambda>e. e_calendar_id e = calendarId) (entries d)))
               \<and> sorted (map Entry_Day es)
               \<and> list_all (\<lambda>e. Entry_Owner e \<noteq> None) es
               \<and> Calendar_EntryCount cal = int32 (int (length es))
               \<and> (length es < 2147483648 \<longrightarrow> Calendar_EntryCount cal = int (length es))))"
proof (intro conjI impI ballI)
  assume "calendarId \<notin> set (map c_id (calendars d))"
  then have "filter (\<lambda>c. c_id c = calendarId) (calendars d) = []"
    by (auto simp: filter_empty_conv)
  then show "GetCalendar calendarId d = (Err ErrNoRows, d)"
    using assms(1) by (simp add: GetCalendar_def QueryRow_Scan_ok select_calendar_def)
next
  fix C assume C: "C \<in> set (calendars d)" "c_id C = calendarId"
  let ?rows = "[(e, u). e \<leftarrow> entries d, u \<leftarrow> users d, u_id u = e_user_id e,
                         e_calendar_id e = calendarId]"
  let ?es = "map row_Entry_owner (sort_key (\<lambda>r. e_day (fst r)) ?rows)"
  let ?cal = "\<lparr>Calendar_Id = c_id C, Calendar_Title = c_title C,
               Calendar_Description = c_description C, Calendar_Year = c_year C,
               Calendar_Owner = None, Calendar_EntryCount = int32 (int (length ?es))\<rparr>"
  have f: "filter (\<lambda>c. c_id c = calendarId) (calendars d) = [C]"
    using filter_key_unique [OF assms(3) C(1)] C(2) by simp
  have r: "GetCalendar calendarId d = (Ok (?cal, ?es), d)"
    using assms(1) f C(2)
    by (simp add: GetCalendar_def QueryRow_Scan_ok select_calendar_def findEntries_ok)
  have "mset ?es = mset (map row_Entry_owner ?rows)"
    by (simp only: mset_map mset_sort)
  also have "\<dots> = mset (map (entry_with_owner d)
                          (filter (\<lambda>e. e_calendar_id e = calendarId) (entries d)))"
    using entries_users_join [OF assms(2,4), of calendarId] by simp
  finally have m: "mset ?es = mset (map (entry_with_owner d)
                          (filter (\<lambda>e. e_calendar_id e = calendarId) (entries d)))" .
  have "map Entry_Day ?es = map (\<lambda>r. e_day (fst r)) (sort_key (\<lambda>r. e_day (fst r)) ?rows)"
    by (simp add: Entry_Day_row_Entry_owner comp_def)
  then have so: "sorted (map Entry_Day ?es)"
    by (simp only: sorted_sort_key)
  have ow: "list_all (\<lambda>e. Entry_Owner e \<noteq> None) ?es"
    by (simp add: list_all_iff row_Entry_owner_def)
  have cnt: "length ?es < 2147483648 \<longrightarrow> int32 (int (length ?es)) = int (length ?es)"
    by (simp add: int32_small)
  show "\<exists>cal es. GetCalendar calendarId d = (Ok (cal, es), d)
               \<and> Calendar_Id cal = c_id C \<and> Calendar_Title cal = c_title C
               \<and> Calendar_Description cal = c_description C \<and> Calendar_Year cal = c_year C
               \<and> mset es = mset (map (entry_with_owner d)
                                      (filter (\<lambda>e. e_calendar_id e = calendarId) (entries d)))
               \<and> sorted (map Entry_Day es)
               \<and> list_all (\<lambda>e. Entry_Owner e \<noteq> None) es
               \<and> Calendar_EntryCount cal = int32 (int (length es))
               \<and> (length es < 2147483648 \<longrightarrow> Calendar_EntryCount cal = int (length es))"
    apply (rule exI [of _ ?cal])
    apply (rule exI [of _ ?es])
    using r m so ow cnt by simp
qed

theorem GetCalendar_spec_witness:
  "faults db0 = []
   \<and> distinct (map u_id (users db0)) \<and> distinct (map c_id (calendars db0))
   \<and> list_all (\<lambda>e. e_user_id e \<in> set (map u_id (users db0))) (entries db0)
   \<and> 7 \<notin> set (map c_id (calendars db0))
   \<and> GetCalendar 7 db0 = (Err ErrNoRows, db0)
   \<and> hd (calendars db0) \<in> set (calendars db0) \<and> c_id (hd (calendars db0)) = 1
   \<and> (\<exists>cal es. GetCalendar 1 db0 = (Ok (cal, es), db0)
         \<and> Calendar_Id cal = 1 \<and> Calendar_Title cal = ''Go''
         \<and> mset es = mset (map (entry_with_owner db0)
                              (filter (\<lambda>e. e_calendar_id e = 1) (entries db0)))
         \<and> sorted (map Entry_Day es)
         \<and> length es < 2147483648
         \<and> Calendar_EntryCount cal = int (length es))"
proof -
  let ?C = "hd (calendars db0)"
  have h1: "faults db0 = []" by code_simp
  have h2: "distinct (map u_id (users db0))" by code_simp
  have h3: "distinct (map c_id (calendars db0))" by code_simp
  have h4: "list_all (\<lambda>e. e_user_id e \<in> set (map u_id (users db0))) (entries db0)"
    by code_simp
  have a: "7 \<notin> set (map c_id (calendars db0))" by code_simp
  have c: "?C \<in> set (calendars db0)" "c_id ?C = 1" "c_title ?C = ''Go''"
    by (simp_all add: db0_def)
  have n: "length (filter (\<lambda>e. e_calendar_id e = 1) (entries db0)) = 2" by code_simp
  have t7: "GetCalendar 7 db0 = (Err ErrNoRows, db0)"
    using GetCalendar_spec [OF h1 h2 h3 h4, of 7] a by blast
  from GetCalendar_spec [OF h1 h2 h3 h4, of 1] c obtain cal es where
    r: "GetCalendar 1 db0 = (Ok (cal, es), db0)"
      "Calendar_Id cal = c_id ?C" "Calendar_Title cal = c_title ?C"
      "mset es = mset (map (entry_with_owner db0)
                          (filter (\<lambda>e. e_calendar_id e = 1) (entries db0)))"
      "sorted (map Entry_Day es)"
      "length es < 2147483648 \<longrightarrow> Calendar_EntryCount cal = int (length es)"
    by blast
  from r(4) have "length es = 2"
    using n mset_eq_length by fastforce
  with r c show ?thesis
    using h1 h2 h3 h4 a t7 by auto
qed

subsection \<open>ListEntries\<close>

lemma concat_map_if:
  "concat (map (\<lambda>x. if P x then f x else []) xs) = concat (map f (filter P xs))"
  by (induction xs) auto

lemma key_absent:
  "k \<notin> set (map f xs) \<Longrightarrow> filter (\<lambda>y. f y = k) xs = [] \<and> find (\<lambda>y. f y = k) xs = None"
  by (auto simp: filter_empty_conv find_None_iff)

lemma entry_join_rows:
  assumes "distinct (map u_id (users d))" and "distinct (map c_id (calendars d))"
  shows "map row_Entry
           (filter (\<lambda>r. e_user_id (fst r) = U \<and> (Y = 0 \<or> c_year (fst (snd r)) = Y))
              [(e, c, u). e \<leftarrow> es, u \<leftarrow> users d, u_id u = e_user_id e,
                          c \<leftarrow> calendars d, c_id c = e_calendar_id e])
       = map (entry_snapshot d)
           (filter (\<lambda>e. e_user_id e = U
                       \<and> user_by_id d (e_user_id e) \<noteq> None
                       \<and> calendar_by_id d (e_calendar_id e) \<noteq> None
                       \<and> (Y = 0 \<or> map_option c_year (calendar_by_id d (e_calendar_id e)) = Some Y))
              es)"
proof (induction es)
  case Nil
  then show ?case by simp
next
  case (Cons e es)
  note IH = Cons.IH
  consider
      (both) "e_user_id e \<in> set (map u_id (users d))"
             "e_calendar_id e \<in> set (map c_id (calendars d))"
    | (no_user) "e_user_id e \<notin> set (map u_id (users d))"
    | (no_calendar) "e_calendar_id e \<notin> set (map c_id (calendars d))"
    by blast
  then show ?case
  proof cases
    case both
    from key_lookup [OF assms(1) both(1)] key_lookup [OF assms(2) both(2)]
    obtain u c where
      u: "filter (\<lambda>y. u_id y = e_user_id e) (users d) = [u]"
         "find (\<lambda>y. u_id y = e_user_id e) (users d) = Some u"
      and c: "filter (\<lambda>y. c_id y = e_calendar_id e) (calendars d) = [c]"
         "find (\<lambda>y. c_id y = e_calendar_id e) (calendars d) = Some c"
      by blast
    have j: "[(e', c, u). e' \<leftarrow> e # es, u \<leftarrow> users d, u_id u = e_user_id e',
                          c \<leftarrow> calendars d, c_id c = e_calendar_id e']
           = (e, c, u) # [(e', c, u). e' \<leftarrow> es, u \<leftarrow> users d, u_id u = e_user_id e',
                                     c \<leftarrow> calendars d, c_id c = e_calendar_id e']"
      using u(1) c(1) by (simp add: concat_map_if)
    have h: "row_Entry (e, c, u) = entry_snapshot d e"
      using u(2) c(2)
      by (simp add: row_Entry_def entry_snapshot_def calendar_snapshot_def owner_snapshot_def
                    user_by_id_def calendar_by_id_def)
    have f: "user_by_id d (e_user_id e) = Some u" "calendar_by_id d (e_calendar_id e) = Some c"
      using u(2) c(2) by (simp_all add: user_by_id_def calendar_by_id_def)
    have q: "(e_user_id e = U
               \<and> user_by_id d (e_user_id e) \<noteq> None
               \<and> calendar_by_id d (e_calendar_id e) \<noteq> None
               \<and> (Y = 0 \<or> map_option c_year (calendar_by_id d (e_calendar_id e)) = Some Y))
           = (e_user_id e = U \<and> (Y = 0 \<or> c_year c = Y))"
      by (simp only: f option.map option.inject option.distinct not_False_eq_True simp_thms)
    show ?thesis
      unfolding j using IH h q by (auto simp del: map_option_eq_Some)
  next
    case no_user
    from key_absent [OF this] have
      n: "filter (\<lambda>y. u_id y = e_user_id e) (users d) = []"
         "user_by_id d (e_user_id e) = None"
      by (simp_all add: user_by_id_def)
    have j: "[(e', c, u). e' \<leftarrow> e # es, u \<leftarrow> users d, u_id u = e_user_id e',
                          c \<leftarrow> calendars d, c_id c = e_calendar_id e']
           = [(e', c, u). e' \<leftarrow> es, u \<leftarrow> users d, u_id u = e_user_id e',
                          c \<leftarrow> calendars d, c_id c = e_calendar_id e']"
      using n(1) by (simp add: concat_map_if)
    show ?thesis
      unfolding j using IH n(2) by (auto simp del: map_option_eq_Some)
  next
    case no_calendar
    from key_absent [OF this] have
      n: "filter (\<lambda>y. c_id y = e_calendar_id e) (calendars d) = []"
         "calendar_by_id d (e_calendar_id e) = None"
      by (simp_all add: calendar_by_id_def)
    have j: "[(e', c, u). e' \<leftarrow> e # es, u \<leftarrow> users d, u_id u = e_user_id e',
                          c \<leftarrow> calendars d, c_id c = e_calendar_id e']
           = [(e', c, u). e' \<leftarrow> es, u \<leftarrow> users d, u_id u = e_user_id e',
                          c \<leftarrow> calendars d, c_id c = e_calendar_id e']"
      using n(1) by (simp add: concat_map_if)
    show ?thesis
      unfolding j using IH n(2) by (auto simp del: map_option_eq_Some)
  qed
qed

lemma ListEntries_ok:
  assumes "faults d = []"
  shows "ListEntries userId year d
       = (Ok (map row_Entry
                (sort_key (\<lambda>r. e_day (fst r))
                   (filter (\<lambda>r. e_user_id (fst r) = userId
                               \<and> (year = 0 \<or> c_year (fst (snd r)) = year))
                      (entry_join d)))), d)"
proof -
  have s: "scan_entry = (\<lambda>r. Inr (row_Entry r))"
    by (rule ext) (simp add: scan_entry_def)
  have c: "(\<lambda>r. list_all (\<lambda>q. q r)
                  ([\<lambda>r. e_user_id (fst r) = userId]
                   @ (if year \<noteq> 0 then [\<lambda>r. c_year (fst (snd r)) = year] else [])))
         = (\<lambda>r. e_user_id (fst r) = userId \<and> (year = 0 \<or> c_year (fst (snd r)) = year))"
    by (rule ext) simp
  show ?thesis
    using assms unfolding ListEntries_def Let_def s c
    by (simp add: Query_ok scan_rows_ok rows_of_def defer_rows_Close_def)
qed

lemma Entry_Day_row_Entry: "Entry_Day (row_Entry r) = e_day (fst r)"
  by (cases r) (simp add: row_Entry_def)

text \<open>
  C8, as stated: for every database state ListEntries(U, Y) returns exactly the entries of
  U whose joined calendar has the year Y, and with year 0 all of U's entries. Both joins
  are inner joins, and DeleteCalendar removes the calendar row only. In the sample store,
  after alice has deleted her calendar 1, bob still owns the entries 1 and 3, and
  ListEntries for bob with year 0 returns entry 3 alone: entry 1, whose calendar is gone,
  is left out.
\<close>

theorem ListEntries_orphan_counterexample:
  "fst (DeleteCalendar svc0 ctx_alice 1 db0) = Ok ()
   \<and> map e_id (filter (\<lambda>e. e_user_id e = 2)
                  (entries (snd (DeleteCalendar svc0 ctx_alice 1 db0)))) = [1, 3]
   \<and> fst (ListEntries 2 0 (snd (DeleteCalendar svc0 ctx_alice 1 db0)))
       = Ok [\<lparr>Entry_Id = 3, Entry_Day = 2, Entry_Title = '''', Entry_Comment = ''second'',
              Entry_Url = '''', Entry_ImageUrl = '''',
              Entry_Calendar = Some \<lparr>Calendar_Id = 3, Calendar_Title = ''Old'',
                                      Calendar_Description = ''last year'', Calendar_Year = 0,
                                      Calendar_Owner = None, Calendar_EntryCount = 0\<rparr>,
              Entry_Owner = Some \<lparr>User_Id = 2, User_Name = ''bob'',
                                   User_IconUrl = ''http://icons/bob''\<rparr>\<rparr>]"
  by code_simp

text \<open>
  C8, amended: when no driver call fails and user and calendar ids are unique, ListEntries
  returns exactly those entries of the given user whose owner row and calendar row exist
  and whose calendar has the given year (any year when the year is 0), each with the
  snapshot of its calendar and of its owner, in ascending order of day. An entry whose
  calendar or owner row is missing is not returned.
\<close>

theorem ListEntries_spec:
  assumes "faults d = []"
    and "distinct (map u_id (users d))" and "distinct (map c_id (calendars d))"
  shows "\<exists>es. ListEntries userId year d = (Ok es, d)
           \<and> mset es = mset (map (entry_snapshot d)
                  (filter (\<lambda>e. e_user_id e = userId
                              \<and> user_by_id d (e_user_id e) \<noteq> None
                              \<and> calendar_by_id d (e_calendar_id e) \<noteq> None
                              \<and> (year = 0
                                  \<or> map_option c_year (calendar_by_id d (e_calendar_id e)) = Some year))
                     (entries d)))
           \<and> sorted (map Entry_Day es)
           \<and> list_all (\<lambda>e. Entry_Calendar e \<noteq> None \<and> Entry_Owner e \<noteq> None) es"
proof -
  let ?P = "\<lambda>r. e_user_id (fst r) = userId \<and> (year = 0 \<or> c_year (fst (snd r)) = year)"
  let ?es = "map row_Entry (sort_key (\<lambda>r. e_day (fst r)) (filter ?P (entry_join d)))"
  have r: "ListEntries userId year d = (Ok ?es, d)"
    using assms(1) by (rule ListEntries_ok)
  have "mset ?es = mset (map row_Entry (filter ?P (entry_join d)))"
    by (simp only: mset_map mset_sort)
  also have "\<dots> = mset (map (entry_snapshot d)
                  (filter (\<lambda>e. e_user_id e = userId
                              \<and> user_by_id d (e_user_id e) \<noteq> None
                              \<and> calendar_by_id d (e_calendar_id e) \<noteq> None
                              \<and> (year = 0
                                  \<or> map_option c_year (calendar_by_id d (e_calendar_id e)) = Some year))
                     (entries d)))"
    using entry_join_rows [OF assms(2,3), of userId year "entries d"]
    by (simp only: entry_join_def)
  finally have m: "mset ?es = mset (map (entry_snapshot d)
                  (filter (\<lambda>e. e_user_id e = userId
                              \<and> user_by_id d (e_user_id e) \<noteq> None
                              \<and> calendar_by_id d (e_calendar_id e) \<noteq> None
                              \<and> (year = 0
                                  \<or> map_option c_year (calendar_by_id d (e_calendar_id e)) = Some year))
                     (entries d)))" .
  have "map Entry_Day ?es
      = map (\<lambda>r. e_day (fst r)) (sort_key (\<lambda>r. e_day (fst r)) (filter ?P (entry_join d)))"
    by (simp add: Entry_Day_row_Entry comp_def)
  then have so: "sorted (map Entry_Day ?es)"
    by (simp only: sorted_sort_key)
  have sn: "list_all (\<lambda>e. Entry_Calendar e \<noteq> None \<and> Entry_Owner e \<noteq> None) ?es"
    by (simp add: list_all_iff row_Entry_def split: prod.splits)
  from r m so sn show ?thesis by blast
qed

theorem ListEntries_spec_witness:
  "faults db0 = []
   \<and> distinct (map u_id (users db0)) \<and> distinct (map c_id (calendars db0))
   \<and> (\<exists>es. ListEntries 2 2023 db0 = (Ok es, db0)
         \<and> mset es = mset (map (entry_snapshot db0)
                (filter (\<lambda>e. e_user_id e = 2
                            \<and> user_by_id db0 (e_user_id e) \<noteq> None
                            \<and> calendar_by_id db0 (e_calendar_id e) \<noteq> None
                            \<and> ((2023::int) = 0
                                \<or> map_option c_year (calendar_by_id db0 (e_calendar_id e)) = Some 2023))
                   (entries db0)))
         \<and> map Entry_Id es = [1]
         \<and> sorted (map Entry_Day es))
   \<and> (\<exists>es. ListEntries 2 0 db0 = (Ok es, db0)
         \<and> map Entry_Id es = [3, 1]
         \<and> sorted (map Entry_Day es))
   \<and> faults (snd (DeleteCalendar svc0 ctx_alice 1 db0)) = []
   \<and> distinct (map u_id (users (snd (DeleteCalendar svc0 ctx_alice 1 db0))))
   \<and> distinct (map c_id (calendars (snd (DeleteCalendar svc0 ctx_alice 1 db0))))
   \<and> (\<exists>es. ListEntries 2 0 (snd (DeleteCalendar svc0 ctx_alice 1 db0))
               = (Ok es, snd (DeleteCalendar svc0 ctx_alice 1 db0))
         \<and> map Entry_Id es = [3]
         \<and> sorted (map Entry_Day es))"
proof -
  let ?d = "snd (DeleteCalendar svc0 ctx_alice 1 db0)"
  have h1: "faults db0 = []" by code_simp
  have h2: "distinct (map u_id (users db0))" by code_simp
  have h3: "distinct (map c_id (calendars db0))" by code_simp
  have k1: "faults ?d = []" by code_simp
  have k2: "distinct (map u_id (users ?d))" by code_simp
  have k3: "distinct (map c_id (calendars ?d))" by code_simp
  have v1: "map Entry_Id (case fst (ListEntries 2 2023 db0) of Ok es \<Rightarrow> es | _ \<Rightarrow> []) = [1]"
    by code_simp
  have v2: "map Entry_Id (case fst (ListEntries 2 0 db0) of Ok es \<Rightarrow> es | _ \<Rightarrow> []) = [3, 1]"
    by code_simp
  have v3: "map Entry_Id (case fst (ListEntries 2 0 ?d) of Ok es \<Rightarrow> es | _ \<Rightarrow> []) = [3]"
    by code_simp
  from ListEntries_spec [OF h1 h2 h3, of 2 2023] obtain es where
    a: "ListEntries 2 2023 db0 = (Ok es, db0)"
       "mset es = mset (map (entry_snapshot db0)
                (filter (\<lambda>e. e_user_id e = 2
                            \<and> user_by_id db0 (e_user_id e) \<noteq> None
                            \<and> calendar_by_id db0 (e_calendar_id e) \<noteq> None
                            \<and> ((2023::int) = 0
                                \<or> map_option c_year (calendar_by_id db0 (e_calendar_id e)) = Some 2023))
                   (entries db0)))"
       "sorted (map Entry_Day es)"
    by blast
  from ListEntries_spec [OF h1 h2 h3, of 2 0] obtain es' where
    b: "ListEntries 2 0 db0 = (Ok es', db0)" "sorted (map Entry_Day es')"
    by blast
  from ListEntries_spec [OF k1 k2 k3, of 2 0] obtain es'' where
    c: "ListEntries 2 0 ?d = (Ok es'', ?d)" "sorted (map Entry_Day es'')"
    by blast
  from a v1 have a': "map Entry_Id es = [1]" by simp
  from b v2 have b': "map Entry_Id es' = [3, 1]" by simp
  from c v3 have c': "map Entry_Id es'' = [3]" by simp
  have A: "\<exists>es. ListEntries 2 2023 db0 = (Ok es, db0)
         \<and> mset es = mset (map (entry_snapshot db0)
                (filter (\<lambda>e. e_user_id e = 2
                            \<and> user_by_id db0 (e_user_id e) \<noteq> None
                            \<and> calendar_by_id db0 (e_calendar_id e) \<noteq> None
                            \<and> ((2023::int) = 0
                                \<or> map_option c_year (calendar_by_id db0 (e_calendar_id e)) = Some 2023))
                   (entries db0)))
         \<and> map Entry_Id es = [1]
         \<and> sorted (map Entry_Day es)"
    using a a' by (intro exI [of _ es] conjI)
  have B: "\<exists>es. ListEntries 2 0 db0 = (Ok es, db0)
         \<and> map Entry_Id es = [3, 1]
         \<and> sorted (map Entry_Day es)"
    using b b' by (intro exI [of _ es'] conjI)
  have C: "\<exists>es. ListEntries 2 0 ?d = (Ok es, ?d)
         \<and> map Entry_Id es = [3]
         \<and> sorted (map Entry_Day es)"
    using c c' by (intro exI [of _ es''] conjI)
  show ?thesis
    by (intro conjI) (fact h1 h2 h3 A B k1 k2 k3 C)+
qed

subsection \<open>ListCalendars\<close>

lemma scan_rows_all_ok:
  "faults d = [] \<Longrightarrow> \<forall>r \<in> set rs. scan r = Inr (f r) \<Longrightarrow>
   scan_rows scan rs acc d = (Inr (acc @ map f rs), d)"
  by (induction rs arbitrary: acc) (simp_all add: driver_call_ok)

lemma fold_upd_lookup:
  "fold (\<lambda>r m. m(fst r \<mapsto> snd r)) (map (\<lambda>k. (k, n k)) ks) m0 k
     = (if k \<in> set ks then Some (n k) else m0 k)"
  by (induction ks arbitrary: m0) auto

lemma entryCounts_of_rows:
  assumes "cid \<in> set ids"
  shows "entryCounts_of (entry_count_rows ids d) cid
       = int (length (filter (\<lambda>e. e_calendar_id e = cid) (entries d)))"
proof (cases "cid \<in> set (map e_calendar_id (entries d))")
  case True
  with assms show ?thesis
    by (simp add: entryCounts_of_def entry_count_rows_def fold_upd_lookup)
next
  case False
  then have "filter (\<lambda>e. e_calendar_id e = cid) (entries d) = []"
    by (auto simp: filter_empty_conv)
  with False show ?thesis
    by (simp add: entryCounts_of_def entry_count_rows_def fold_upd_lookup)
qed

lemma scan_count_small:
  assumes "length (entries d) < 2147483648"
  shows "\<forall>r \<in> set (entry_count_rows ids d). scan_count r = Inr r"
proof
  fix r assume "r \<in> set (entry_count_rows ids d)"
  then obtain cid where r: "r = (cid, int (length (filter (\<lambda>e. e_calendar_id e = cid) (entries d))))"
    by (auto simp: entry_count_rows_def)
  have "length (filter (\<lambda>e. e_calendar_id e = cid) (entries d)) \<le> length (entries d)"
    by (rule length_filter_le)
  with assms have "int (length (filter (\<lambda>e. e_calendar_id e = cid) (entries d))) < 2147483648"
    by linarith
  with r show "scan_count r = Inr r"
    by (simp add: scan_count_def scan_int32_def)
qed

lemma bindEntryCount_ok:
  assumes "faults d = []" and "length (entries d) < 2147483648"
  shows "bindEntryCount cals d
       = (Ok (map (\<lambda>c. c\<lparr>Calendar_EntryCount :=
                           int (length (filter (\<lambda>e. e_calendar_id e = Calendar_Id c) (entries d)))\<rparr>)
                cals), d)"
proof -
  have s: "scan_rows scan_count (entry_count_rows (map Calendar_Id cals) d) [] d
         = (Inr (entry_count_rows (map Calendar_Id cals) d), d)"
    using scan_rows_all_ok [OF assms(1), of _ scan_count "\<lambda>r. r" "[]"]
      scan_count_small [OF assms(2)] by simp
  have m: "map (\<lambda>c. c\<lparr>Calendar_EntryCount :=
                        entryCounts_of (entry_count_rows (map Calendar_Id cals) d) (Calendar_Id c)\<rparr>) cals
         = map (\<lambda>c. c\<lparr>Calendar_EntryCount :=
                        int (length (filter (\<lambda>e. e_calendar_id e = Calendar_Id c) (entries d)))\<rparr>) cals"
    by (rule map_cong) (simp_all add: entryCounts_of_rows)
  show ?thesis
    using assms(1) s m by (simp add: bindEntryCount_def Let_def Query_ok)
qed

lemma calendar_join_rows:
  assumes "distinct (map u_id (users d))"
    and "list_all (\<lambda>c. c_user_id c \<in> set (map u_id (users d))) cs"
  shows "map (\<lambda>r. (row_Calendar r)\<lparr>Calendar_EntryCount :=
                     int (length (filter (\<lambda>e. e_calendar_id e = c_id (fst r)) (entries d)))\<rparr>)
           (filter (\<lambda>r. c_year (fst r) = year)
              [(c, u). c \<leftarrow> cs, u \<leftarrow> users d, u_id u = c_user_id c])
       = map (calendar_with_count d) (filter (\<lambda>c. c_year c = year) cs)"
  using assms(2)
proof (induction cs)
  case Nil
  then show ?case by simp
next
  case (Cons c cs)
  from Cons.prems have "c_user_id c \<in> set (map u_id (users d))" by simp
  from key_lookup [OF assms(1) this] obtain u where
    u: "filter (\<lambda>y. u_id y = c_user_id c) (users d) = [u]"
       "find (\<lambda>y. u_id y = c_user_id c) (users d) = Some u" by blast
  have j: "[(c', u). c' \<leftarrow> c # cs, u \<leftarrow> users d, u_id u = c_user_id c']
         = (c, u) # [(c', u). c' \<leftarrow> cs, u \<leftarrow> users d, u_id u = c_user_id c']"
    using u(1) by (simp add: concat_map_if)
  have h: "(row_Calendar (c, u))\<lparr>Calendar_EntryCount :=
              int (length (filter (\<lambda>e. e_calendar_id e = c_id c) (entries d)))\<rparr>
         = calendar_with_count d c"
    using u(2)
    by (simp add: row_Calendar_def calendar_with_count_def owner_snapshot_def user_by_id_def)
  from Cons have IH: "map (\<lambda>r. (row_Calendar r)\<lparr>Calendar_EntryCount :=
                     int (length (filter (\<lambda>e. e_calendar_id e = c_id (fst r)) (entries d)))\<rparr>)
           (filter (\<lambda>r. c_year (fst r) = year)
              [(c, u). c \<leftarrow> cs, u \<leftarrow> users d, u_id u = c_user_id c])
       = map (calendar_with_count d) (filter (\<lambda>c. c_year c = year) cs)" by simp
  show ?case
    unfolding j using IH h by simp
qed

lemma ListCalendars_ok:
  assumes "faults d = []" and "length (entries d) < 2147483648"
  shows "ListCalendars s year 0 '''' 0 d
       = (Ok (map (\<lambda>r. (row_Calendar r)\<lparr>Calendar_EntryCount :=
                     int (length (filter (\<lambda>e. e_calendar_id e = c_id (fst r)) (entries d)))\<rparr>)
                (sort_key (\<lambda>r. - c_id (fst r))
                   (filter (\<lambda>r. c_year (fst r) = year) (calendar_join d)))), d)"
proof -
  let ?rows = "sort_key (\<lambda>r. - c_id (fst r)) (filter (\<lambda>r. c_year (fst r) = year) (calendar_join d))"
  have s: "scan_calendar = (\<lambda>r. Inr (row_Calendar r))"
    by (rule ext) (simp add: scan_calendar_def)
  have b: "bindEntryCount (map row_Calendar ?rows) d
         = (Ok (map (\<lambda>r. (row_Calendar r)\<lparr>Calendar_EntryCount :=
                     int (length (filter (\<lambda>e. e_calendar_id e = c_id (fst r)) (entries d)))\<rparr>)
                  ?rows), d)"
    unfolding bindEntryCount_ok [OF assms] by (simp add: comp_def row_Calendar_def)
  have e: "?rows = [] \<Longrightarrow> map row_Calendar ?rows
             = map (\<lambda>r. (row_Calendar r)\<lparr>Calendar_EntryCount :=
                     int (length (filter (\<lambda>e. e_calendar_id e = c_id (fst r)) (entries d)))\<rparr>) ?rows"
    by simp
  show ?thesis
    using assms(1) b e unfolding ListCalendars_def Let_def s
    by (simp add: Query_ok scan_rows_ok sql_limit_def defer_rows_Close_def)
qed

lemma descending_ids:
  "sorted (map (\<lambda>x. - x) xs) \<Longrightarrow> distinct xs \<Longrightarrow> sorted_wrt (\<lambda>a b. a > b) (xs :: int list)"
  by (induction xs) (auto simp: less_le)

lemma calendar_join_fst: "r \<in> set (calendar_join d) \<Longrightarrow> fst r \<in> set (calendars d)"
  by (auto simp: calendar_join_def split: if_splits)

lemma Calendar_Id_with_count: "Calendar_Id (calendar_with_count d c) = c_id c"
  by (simp add: calendar_with_count_def)

text \<open>
  C6: for every store with unique user and calendar ids in which every calendar's owner
  has a user row and the entries table has fewer than 2^31 rows: with no driver failure,
  ListCalendars(year, userId = 0, query = "", pageSize = 0) returns exactly the calendars
  of that year, each with its owner and with the number of entries that reference it, in
  descending order of id. And when no calendar has that year, only the first driver call
  is made: whatever the driver would answer to a second call, the result is the empty list.
\<close>

theorem ListCalendars_spec:
  assumes "distinct (map u_id (users d))" and "distinct (map c_id (calendars d))"
    and "list_all (\<lambda>c. c_user_id c \<in> set (map u_id (users d))) (calendars d)"
    and "length (entries d) < 2147483648"
  shows "(faults d = [] \<longrightarrow>
            (\<exists>cs. ListCalendars s year 0 '''' 0 d = (Ok cs, d)
               \<and> mset cs = mset (map (calendar_with_count d)
                                      (filter (\<lambda>c. c_year c = year) (calendars d)))
               \<and> sorted_wrt (\<lambda>a b. a > b) (map Calendar_Id cs)
               \<and> list_all (\<lambda>c. Calendar_Year c = year \<and> Calendar_Owner c \<noteq> None
                     \<and> Calendar_EntryCount c
                         = int (length (filter (\<lambda>e. e_calendar_id e = Calendar_Id c) (entries d))))
                    cs))
       \<and> (\<forall>fs. faults d = None # fs \<and> filter (\<lambda>c. c_year c = year) (calendars d) = []
            \<longrightarrow> ListCalendars s year 0 '''' 0 d = (Ok [], d\<lparr>faults := fs\<rparr>))"
proof (intro conjI impI allI)
  assume f: "faults d = []"
  let ?G = "\<lambda>r. (row_Calendar r)\<lparr>Calendar_EntryCount :=
                     int (length (filter (\<lambda>e. e_calendar_id e = c_id (fst r)) (entries d)))\<rparr>"
  let ?sel = "filter (\<lambda>r. c_year (fst r) = year) (calendar_join d)"
  let ?rows = "sort_key (\<lambda>r. - c_id (fst r)) ?sel"
  let ?cs = "map ?G ?rows"
  have r: "ListCalendars s year 0 '''' 0 d = (Ok ?cs, d)"
    using f assms(4) by (rule ListCalendars_ok)
  have "mset ?cs = mset (map ?G ?sel)"
    by (simp only: mset_map mset_sort)
  also have "\<dots> = mset (map (calendar_with_count d) (filter (\<lambda>c. c_year c = year) (calendars d)))"
    using calendar_join_rows [OF assms(1,3), of year] by (simp add: calendar_join_def)
  finally have m: "mset ?cs
      = mset (map (calendar_with_count d) (filter (\<lambda>c. c_year c = year) (calendars d)))" .
  have ids: "map Calendar_Id ?cs = map (\<lambda>r. c_id (fst r)) ?rows"
    by (simp add: row_Calendar_def comp_def)
  have "mset (map Calendar_Id ?cs) = image_mset Calendar_Id (mset ?cs)"
    by (rule mset_map)
  also have "\<dots> = image_mset Calendar_Id
                   (mset (map (calendar_with_count d)
                            (filter (\<lambda>c. c_year c = year) (calendars d))))"
    by (simp only: m)
  also have "\<dots> = mset (map Calendar_Id (map (calendar_with_count d)
                                 (filter (\<lambda>c. c_year c = year) (calendars d))))"
    by (rule mset_map [symmetric])
  also have "map Calendar_Id (map (calendar_with_count d)
                                 (filter (\<lambda>c. c_year c = year) (calendars d)))
           = map c_id (filter (\<lambda>c. c_year c = year) (calendars d))"
    by (simp add: Calendar_Id_with_count comp_def)
  finally have "mset (map Calendar_Id ?cs)
      = mset (map c_id (filter (\<lambda>c. c_year c = year) (calendars d)))" .
  moreover have "distinct (map c_id (filter (\<lambda>c. c_year c = year) (calendars d)))"
    using assms(2) by (rule distinct_map_filter)
  ultimately have di: "distinct (map Calendar_Id ?cs)"
    using mset_eq_imp_distinct_iff by blast
  have "map (\<lambda>x. - x) (map Calendar_Id ?cs) = map (\<lambda>r. - c_id (fst r)) ?rows"
    unfolding ids by (simp add: comp_def)
  then have "sorted (map (\<lambda>x. - x) (map Calendar_Id ?cs))"
    by (simp only: sorted_sort_key)
  then have so: "sorted_wrt (\<lambda>a b. a > b) (map Calendar_Id ?cs)"
    using di by (rule descending_ids)
  have la: "list_all (\<lambda>c. Calendar_Year c = year \<and> Calendar_Owner c \<noteq> None
                     \<and> Calendar_EntryCount c
                         = int (length (filter (\<lambda>e. e_calendar_id e = Calendar_Id c) (entries d))))
                    ?cs"
    by (simp add: list_all_iff row_Calendar_def)
  from r m so la
  show "\<exists>cs. ListCalendars s year 0 '''' 0 d = (Ok cs, d)
               \<and> mset cs = mset (map (calendar_with_count d)
                                      (filter (\<lambda>c. c_year c = year) (calendars d)))
               \<and> sorted_wrt (\<lambda>a b. a > b) (map Calendar_Id cs)
               \<and> list_all (\<lambda>c. Calendar_Year c = year \<and> Calendar_Owner c \<noteq> None
                     \<and> Calendar_EntryCount c
                         = int (length (filter (\<lambda>e. e_calendar_id e = Calendar_Id c) (entries d))))
                    cs"
    by (intro exI [of _ ?cs] conjI)
next
  fix fs
  assume a: "faults d = None # fs \<and> filter (\<lambda>c. c_year c = year) (calendars d) = []"
  then have "\<And>r. r \<in> set (calendar_join d) \<Longrightarrow> c_year (fst r) \<noteq> year"
    using calendar_join_fst [of _ d] by (auto simp: filter_empty_conv)
  then have e: "filter (\<lambda>r. c_year (fst r) = year) (calendar_join d) = []"
    by (auto simp: filter_empty_conv)
  have j: "calendar_join (d\<lparr>faults := fs\<rparr>) = calendar_join d"
    by (simp add: calendar_join_def)
  show "ListCalendars s year 0 '''' 0 d = (Ok [], d\<lparr>faults := fs\<rparr>)"
    using a e j
    by (simp add: ListCalendars_def Let_def Query_def driver_call_def sql_limit_def
                  defer_rows_Close_def)
qed
theorem ListCalendars_spec_witness:
  "distinct (map u_id (users db0)) \<and> distinct (map c_id (calendars db0))
   \<and> list_all (\<lambda>c. c_user_id c \<in> set (map u_id (users db0))) (calendars db0)
   \<and> length (entries db0) < 2147483648
   \<and> faults db0 = []
   \<and> (\<exists>cs. ListCalendars svc0 2023 0 '''' 0 db0 = (Ok cs, db0)
         \<and> mset cs = mset (map (calendar_with_count db0)
                              (filter (\<lambda>c. c_year c = 2023) (calendars db0)))
         \<and> sorted_wrt (\<lambda>a b. a > b) (map Calendar_Id cs)
         \<and> map Calendar_Id cs = [2, 1]
         \<and> map Calendar_EntryCount cs = [0, 2])
   \<and> faults (db0\<lparr>faults := [None, Some (ErrDriver 7)]\<rparr>) = None # [Some (ErrDriver 7)]
   \<and> filter (\<lambda>c. c_year c = 2021) (calendars (db0\<lparr>faults := [None, Some (ErrDriver 7)]\<rparr>)) = []
   \<and> ListCalendars svc0 2021 0 '''' 0 (db0\<lparr>faults := [None, Some (ErrDriver 7)]\<rparr>)
       = (Ok [], db0\<lparr>faults := [Some (ErrDriver 7)]\<rparr>)"
proof -
  let ?d = "db0\<lparr>faults := [None, Some (ErrDriver 7)]\<rparr>"
  have h1: "distinct (map u_id (users db0))" by code_simp
  have h2: "distinct (map c_id (calendars db0))" by code_simp
  have h3: "list_all (\<lambda>c. c_user_id c \<in> set (map u_id (users db0))) (calendars db0)"
    by code_simp
  have h4: "length (entries db0) < 2147483648" by (simp add: db0_def)
  have h5: "faults db0 = []" by code_simp
  have k1: "distinct (map u_id (users ?d))" using h1 by simp
  have k2: "distinct (map c_id (calendars ?d))" using h2 by simp
  have k3: "list_all (\<lambda>c. c_user_id c \<in> set (map u_id (users ?d))) (calendars ?d)"
    using h3 by simp
  have k4: "length (entries ?d) < 2147483648" using h4 by simp
  have k5: "faults ?d = None # [Some (ErrDriver 7)]" by simp
  have k6: "filter (\<lambda>c. c_year c = 2021) (calendars ?d) = []" by (simp add: db0_def)
  have v1: "map Calendar_Id (case fst (ListCalendars svc0 2023 0 '''' 0 db0) of
                               Ok cs \<Rightarrow> cs | _ \<Rightarrow> []) = [2, 1]"
    by code_simp
  have v2: "map Calendar_EntryCount (case fst (ListCalendars svc0 2023 0 '''' 0 db0) of
                               Ok cs \<Rightarrow> cs | _ \<Rightarrow> []) = [0, 2]"
    by code_simp
  from ListCalendars_spec [OF h1 h2 h3 h4, of svc0 2023] h5 obtain cs where
    a: "ListCalendars svc0 2023 0 '''' 0 db0 = (Ok cs, db0)"
       "mset cs = mset (map (calendar_with_count db0)
                              (filter (\<lambda>c. c_year c = 2023) (calendars db0)))"
       "sorted_wrt (\<lambda>a b. a > b) (map Calendar_Id cs)"
    by blast
  from a(1) v1 v2 have a': "map Calendar_Id cs = [2, 1]" "map Calendar_EntryCount cs = [0, 2]"
    by simp_all
  have A: "\<exists>cs. ListCalendars svc0 2023 0 '''' 0 db0 = (Ok cs, db0)
         \<and> mset cs = mset (map (calendar_with_count db0)
                              (filter (\<lambda>c. c_year c = 2023) (calendars db0)))
         \<and> sorted_wrt (\<lambda>a b. a > b) (map Calendar_Id cs)
         \<and> map Calendar_Id cs = [2, 1]
         \<and> map Calendar_EntryCount cs = [0, 2]"
    using a a' by (intro exI [of _ cs] conjI)
  from ListCalendars_spec [OF k1 k2 k3 k4, of svc0 2021] k5 k6
  have "ListCalendars svc0 2021 0 '''' 0 ?d = (Ok [], ?d\<lparr>faults := [Some (ErrDriver 7)]\<rparr>)"
    by blast
  then have B: "ListCalendars svc0 2021 0 '''' 0 ?d = (Ok [], db0\<lparr>faults := [Some (ErrDriver 7)]\<rparr>)"
    by simp
  show ?thesis
    by (intro conjI) (fact h1 h2 h3 h4 h5 A k5 k6 B)+
qed

subsection \<open>SignIn\<close>

lemma SignIn_step:
  assumes "faults d = []" and "VerifyIDToken s jwt = Some a"
    and "length (users_of_identity (AuthProvider a) (AuthUID a) d) \<le> 1"
  shows "\<exists>d'. SignIn s jwt d = (Ok (), d') \<and> faults d' = []
           \<and> (\<exists>r. users_of_identity (AuthProvider a) (AuthUID a) d' = [r]
                  \<and> u_icon_url r = AuthIconURL a)
           \<and> map user_identity (take (length (users d)) (users d')) = map user_identity (users d)
           \<and> length (users d) \<le> length (users d')
           \<and> calendars d' = calendars d \<and> entries d' = entries d"
proof (cases "users_of_identity (AuthProvider a) (AuthUID a) d")
  case Nil
  let ?d' = "snd (insert_users (AuthName a) (AuthUID a) (AuthProvider a) (AuthIconURL a) d)"
  from Nil have q: "filter (\<lambda>u. u_auth_provider u = AuthProvider a \<and> u_auth_uid u = AuthUID a)
                      (users d) = []"
    by (simp add: users_of_identity_def)
  have r: "SignIn s jwt d = (Ok (), ?d')"
    using assms(1,2) q by (simp add: SignIn_def QueryRow_Scan_ok Prepare_ok Exec_ok)
  have u: "users_of_identity (AuthProvider a) (AuthUID a) ?d'
         = [\<lparr>u_id = users_seq d, u_name = AuthName a, u_auth_uid = AuthUID a,
             u_auth_provider = AuthProvider a, u_icon_url = AuthIconURL a\<rparr>]"
    using q by (simp add: users_of_identity_def insert_users_def)
  have f: "faults ?d' = []" "calendars ?d' = calendars d" "entries ?d' = entries d"
          "users ?d' = users d @ [\<lparr>u_id = users_seq d, u_name = AuthName a, u_auth_uid = AuthUID a,
             u_auth_provider = AuthProvider a, u_icon_url = AuthIconURL a\<rparr>]"
    using assms(1) by (simp_all add: insert_users_def)
  show ?thesis
    using r u f by simp
next
  case (Cons r0 rs)
  with assms(3) have rs: "rs = []" by simp
  let ?f = "\<lambda>u. if u_id u = u_id r0 then u\<lparr>u_icon_url := AuthIconURL a\<rparr> else u"
  let ?d' = "snd (update_users_icon_url (AuthIconURL a) (u_id r0) d)"
  from Cons rs have q: "filter (\<lambda>u. u_auth_provider u = AuthProvider a \<and> u_auth_uid u = AuthUID a)
                      (users d) = [r0]"
    by (simp add: users_of_identity_def)
  have r: "SignIn s jwt d = (Ok (), ?d')"
    using assms(1,2) q by (simp add: SignIn_def QueryRow_Scan_ok Prepare_ok Exec_ok)
  have us: "users ?d' = map ?f (users d)"
    by (simp add: update_users_icon_url_def)
  have "filter (\<lambda>u. u_auth_provider u = AuthProvider a \<and> u_auth_uid u = AuthUID a)
          (map ?f (users d))
      = map ?f (filter (\<lambda>u. u_auth_provider u = AuthProvider a \<and> u_auth_uid u = AuthUID a)
                  (users d))"
    by (induction "users d") (simp_all add: filter_map comp_def if_distrib cong: if_cong)
  then have u: "users_of_identity (AuthProvider a) (AuthUID a) ?d' = [r0\<lparr>u_icon_url := AuthIconURL a\<rparr>]"
    using q us by (simp add: users_of_identity_def)
  have i: "map user_identity (map ?f (users d)) = map user_identity (users d)"
    by (simp add: user_identity_def comp_def if_distrib cong: if_cong)
  have f: "faults ?d' = []" "calendars ?d' = calendars d" "entries ?d' = entries d"
    using assms(1) by (simp_all add: update_users_icon_url_def)
  show ?thesis
    using r u f us i by simp
qed

text \<open>
  C5: when no driver call fails and the store holds at most one user row for the identity
  (auth_provider, auth_uid), two SignIn calls in succession with tokens that verify to
  that identity both succeed; afterwards exactly one users row has the identity, its
  icon_url is the IconURL of the second verification, and every user row that was there
  before has the id, name, auth_uid and auth_provider it had; the calendars and entries
  are untouched.
\<close>

theorem SignIn_twice:
  assumes "faults d = []"
    and "VerifyIDToken s jwt1 = Some a1" and "VerifyIDToken s jwt2 = Some a2"
    and "AuthProvider a2 = AuthProvider a1" and "AuthUID a2 = AuthUID a1"
    and "length (users_of_identity (AuthProvider a1) (AuthUID a1) d) \<le> 1"
  shows "\<exists>d1 d2. SignIn s jwt1 d = (Ok (), d1) \<and> SignIn s jwt2 d1 = (Ok (), d2)
           \<and> (\<exists>r. users_of_identity (AuthProvider a1) (AuthUID a1) d2 = [r]
                  \<and> u_icon_url r = AuthIconURL a2)
           \<and> map user_identity (take (length (users d)) (users d2)) = map user_identity (users d)
           \<and> calendars d2 = calendars d \<and> entries d2 = entries d"
proof -
  from SignIn_step [OF assms(1,2,6)] obtain d1 r1 where
    s1: "SignIn s jwt1 d = (Ok (), d1)" "faults d1 = []"
        "users_of_identity (AuthProvider a1) (AuthUID a1) d1 = [r1]"
        "map user_identity (take (length (users d)) (users d1)) = map user_identity (users d)"
        "length (users d) \<le> length (users d1)"
        "calendars d1 = calendars d" "entries d1 = entries d"
    by blast
  from s1(3) have "length (users_of_identity (AuthProvider a2) (AuthUID a2) d1) \<le> 1"
    using assms(4,5) by simp
  from SignIn_step [OF s1(2) assms(3) this] obtain d2 r2 where
    s2: "SignIn s jwt2 d1 = (Ok (), d2)"
        "users_of_identity (AuthProvider a2) (AuthUID a2) d2 = [r2]"
        "u_icon_url r2 = AuthIconURL a2"
        "map user_identity (take (length (users d1)) (users d2)) = map user_identity (users d1)"
        "calendars d2 = calendars d1" "entries d2 = entries d1"
    by blast
  have "take (length (users d)) (users d2)
      = take (length (users d)) (take (length (users d1)) (users d2))"
    using s1(5) by (simp add: min_def)
  then have "map user_identity (take (length (users d)) (users d2))
      = take (length (users d)) (map user_identity (take (length (users d1)) (users d2)))"
    by (simp only: take_map)
  also have "\<dots> = take (length (users d)) (map user_identity (users d1))"
    by (simp only: s2(4))
  also have "\<dots> = map user_identity (users d)"
    using s1(4) by (simp only: take_map)
  finally have k: "map user_identity (take (length (users d)) (users d2))
      = map user_identity (users d)" .
  have u: "\<exists>r. users_of_identity (AuthProvider a1) (AuthUID a1) d2 = [r]
             \<and> u_icon_url r = AuthIconURL a2"
    using s2(2,3) assms(4,5) by auto
  have c: "calendars d2 = calendars d" "entries d2 = entries d"
    using s1(6,7) s2(5,6) by simp_all
  from s1(1) s2(1) u k c show ?thesis by blast
qed

theorem SignIn_twice_witness:
  "faults db0 = []
   \<and> VerifyIDToken svc0 ''tok-carol'' = Some \<lparr>AuthProvider = ''google'', AuthUID = ''c-3'',
        AuthName = ''carol'', AuthIconURL = ''http://icons/carol''\<rparr>
   \<and> length (users_of_identity ''google'' ''c-3'' db0) \<le> 1
   \<and> (\<exists>d1 d2. SignIn svc0 ''tok-carol'' db0 = (Ok (), d1)
         \<and> SignIn svc0 ''tok-carol'' d1 = (Ok (), d2)
         \<and> (\<exists>r. users_of_identity ''google'' ''c-3'' d2 = [r]
                \<and> u_icon_url r = ''http://icons/carol'')
         \<and> map user_identity (take (length (users db0)) (users d2))
             = map user_identity (users db0))
   \<and> VerifyIDToken svc0 ''tok-alice'' = Some \<lparr>AuthProvider = ''google'', AuthUID = ''a-1'',
        AuthName = ''alice'', AuthIconURL = ''http://icons/alice-new''\<rparr>
   \<and> length (users_of_identity ''google'' ''a-1'' db0) \<le> 1
   \<and> (\<exists>d1 d2. SignIn svc0 ''tok-alice'' db0 = (Ok (), d1)
         \<and> SignIn svc0 ''tok-alice'' d1 = (Ok (), d2)
         \<and> (\<exists>r. users_of_identity ''google'' ''a-1'' d2 = [r]
                \<and> u_icon_url r = ''http://icons/alice-new'')
         \<and> map user_identity (take (length (users db0)) (users d2))
             = map user_identity (users db0))"
proof -
  let ?c = "\<lparr>AuthProvider = ''google'', AuthUID = ''c-3'',
        AuthName = ''carol'', AuthIconURL = ''http://icons/carol''\<rparr>"
  let ?a = "\<lparr>AuthProvider = ''google'', AuthUID = ''a-1'',
        AuthName = ''alice'', AuthIconURL = ''http://icons/alice-new''\<rparr>"
  have h1: "faults db0 = []" by code_simp
  have c2: "VerifyIDToken svc0 ''tok-carol'' = Some ?c" by (simp add: svc0_def verifier0_def)
  have c6: "length (users_of_identity ''google'' ''c-3'' db0) \<le> 1" by code_simp
  have a2: "VerifyIDToken svc0 ''tok-alice'' = Some ?a" by (simp add: svc0_def verifier0_def)
  have a6: "length (users_of_identity ''google'' ''a-1'' db0) \<le> 1" by code_simp
  have C: "\<exists>d1 d2. SignIn svc0 ''tok-carol'' db0 = (Ok (), d1)
         \<and> SignIn svc0 ''tok-carol'' d1 = (Ok (), d2)
         \<and> (\<exists>r. users_of_identity ''google'' ''c-3'' d2 = [r]
                \<and> u_icon_url r = ''http://icons/carol'')
         \<and> map user_identity (take (length (users db0)) (users d2))
             = map user_identity (users db0)"
    using SignIn_twice [OF h1 c2 c2] c6 by simp blast
  have A: "\<exists>d1 d2. SignIn svc0 ''tok-alice'' db0 = (Ok (), d1)
         \<and> SignIn svc0 ''tok-alice'' d1 = (Ok (), d2)
         \<and> (\<exists>r. users_of_identity ''google'' ''a-1'' d2 = [r]
                \<and> u_icon_url r = ''http://icons/alice-new'')
         \<and> map user_identity (take (length (users db0)) (users d2))
             = map user_identity (users db0)"
    using SignIn_twice [OF h1 a2 a2] a6 by simp blast
  show ?thesis
    by (intro conjI) (fact h1 c2 c6 C a2 a6 A)+
qed

end
